theory Spec2Isabelle
  imports Main "HOL-Library.Word" "HOL-Library.Sublist"
begin

unbundle bit_operations_syntax

section \<open>Python values\<close>

text \<open>
  The package is Python 3 only (f-strings, \<^verbatim>\<open>from urllib import parse\<close>). A \<^verbatim>\<open>str\<close> is a
  sequence of code points and a \<^verbatim>\<open>bytes\<close> object a sequence of octets. String literals of
  the source are written \<open>u ''...''\<close>. Messages of exceptions are kept as plain text.
\<close>

type_synonym ustr = "nat list"
type_synonym bytes = "8 word list"

definition u :: "string \<Rightarrow> ustr" where
  "u s = map of_char s"

datatype error =
    KeyNotFound
  | InvalidUrl string
  | InvalidAlias ustr
  | InvalidGatewayResponse string
  | AttributeError string
  | KeyError ustr
  | TypeError string
  | ValueError string
  | IndexError
  | UnicodeEncodeError
  | UnicodeDecodeError
  | BinasciiError string
  | ExternalError string

text \<open>An argument that may be a \<^verbatim>\<open>str\<close> or a \<^verbatim>\<open>bytes\<close> object.\<close>

datatype strlike = Str ustr | Bytes bytes

datatype Action = PURCHASE | REFUND | VOID | INQUIRY

fun Action_value :: "Action \<Rightarrow> int" where
  "Action_value PURCHASE = 1"
| "Action_value REFUND = 2"
| "Action_value VOID = 3"
| "Action_value INQUIRY = 8"

fun Action_name :: "Action \<Rightarrow> string" where
  "Action_name PURCHASE = ''PURCHASE''"
| "Action_name REFUND = ''REFUND''"
| "Action_name VOID = ''VOID''"
| "Action_name INQUIRY = ''INQUIRY''"

text \<open>
  The objects the gateway stores in its attributes and puts into the parameter dictionary.
  \<open>PObj b s\<close> is an object of any other type (the amount is documented as a float), known
  by all the code ever asks of it: its truth value \<open>b\<close> and its \<^verbatim>\<open>str()\<close> rendering \<open>s\<close>.
\<close>

datatype pyval = PNone | PInt int | PStr ustr | PAction Action | PObj bool ustr

fun truthy :: "pyval \<Rightarrow> bool" where
  "truthy PNone = False"
| "truthy (PInt n) = (n \<noteq> 0)"
| "truthy (PStr s) = (s \<noteq> [])"
| "truthy (PAction a) = True"
| "truthy (PObj b s) = b"

fun digits :: "nat \<Rightarrow> ustr" where
  "digits n = (if n < 10 then [48 + n] else digits (n div 10) @ [48 + n mod 10])"

definition str_int :: "int \<Rightarrow> ustr" where
  "str_int n = (if n < 0 then 45 # digits (nat (- n)) else digits (nat n))"

fun py_str :: "pyval \<Rightarrow> ustr" where
  "py_str PNone = u ''None''"
| "py_str (PInt n) = str_int n"
| "py_str (PStr s) = s"
| "py_str (PAction a) = u (''Action.'' @ Action_name a)"
| "py_str (PObj b s) = s"

text \<open>An attribute that holds a \<^verbatim>\<open>str\<close> or \<^verbatim>\<open>None\<close>.\<close>

fun opt_val :: "ustr option \<Rightarrow> pyval" where
  "opt_val None = PNone"
| "opt_val (Some s) = PStr s"

subsection \<open>Strings\<close>

text \<open>\<^verbatim>\<open>s.split(c)\<close> for a one-character separator: never empty, \<^verbatim>\<open>''.split(c) == ['']\<close>.\<close>

fun py_split :: "nat \<Rightarrow> ustr \<Rightarrow> ustr list" where
  "py_split c [] = [[]]"
| "py_split c (x # xs) =
     (if x = c then [] # py_split c xs
      else (case py_split c xs of [] \<Rightarrow> [[x]] | y # ys \<Rightarrow> (x # y) # ys))"

text \<open>\<^verbatim>\<open>s.partition(c)\<close>: the text before the first \<open>c\<close>, whether there is one, the text after.\<close>

definition py_partition :: "nat \<Rightarrow> ustr \<Rightarrow> ustr \<times> bool \<times> ustr" where
  "py_partition c s =
     (takeWhile (\<lambda>x. x \<noteq> c) s, c \<in> set s, drop 1 (dropWhile (\<lambda>x. x \<noteq> c) s))"

definition py_replace :: "nat \<Rightarrow> nat \<Rightarrow> ustr \<Rightarrow> ustr" where
  "py_replace a b s = map (\<lambda>x. if x = a then b else x) s"

fun py_join :: "ustr \<Rightarrow> ustr list \<Rightarrow> ustr" where
  "py_join sep [] = []"
| "py_join sep [x] = x"
| "py_join sep (x # y # ys) = x @ sep @ py_join sep (y # ys)"

fun join_text :: "string \<Rightarrow> string list \<Rightarrow> string" where
  "join_text sep [] = []"
| "join_text sep [x] = x"
| "join_text sep (x # y # ys) = x @ sep @ join_text sep (y # ys)"

text \<open>The code points \<^verbatim>\<open>str.isspace\<close> accepts; \<^verbatim>\<open>str.strip()\<close> removes them at both ends.\<close>

definition py_isspace :: "nat \<Rightarrow> bool" where
  "py_isspace c =
     ((9 \<le> c \<and> c \<le> 13) \<or> (28 \<le> c \<and> c \<le> 32) \<or> c = 133 \<or> c = 160 \<or> c = 5760
      \<or> (8192 \<le> c \<and> c \<le> 8202) \<or> c = 8232 \<or> c = 8233 \<or> c = 8239 \<or> c = 8287
      \<or> c = 12288)"

definition py_strip :: "ustr \<Rightarrow> ustr" where
  "py_strip s = rev (dropWhile py_isspace (rev (dropWhile py_isspace s)))"

section \<open>Codecs\<close>

subsection \<open>UTF-8\<close>

text \<open>
  \<^verbatim>\<open>str.encode('utf-8')\<close> encodes the Unicode scalar values; a lone surrogate raises
  \<^verbatim>\<open>UnicodeEncodeError\<close>.
\<close>

definition encodable :: "nat \<Rightarrow> bool" where
  "encodable c = (c < 55296 \<or> (57344 \<le> c \<and> c < 1114112))"

definition utf8_encode_cp :: "nat \<Rightarrow> nat list" where
  "utf8_encode_cp c =
     (if c < 128 then [c]
      else if c < 2048 then [192 + c div 64, 128 + c mod 64]
      else if c < 65536 then [224 + c div 4096, 128 + (c div 64) mod 64, 128 + c mod 64]
      else [240 + c div 262144, 128 + (c div 4096) mod 64, 128 + (c div 64) mod 64,
            128 + c mod 64])"

definition utf8_encode :: "ustr \<Rightarrow> error + bytes" where
  "utf8_encode s =
     (if list_all encodable s then Inr (map of_nat (concat (map utf8_encode_cp s)))
      else Inl UnicodeEncodeError)"

text \<open>
  The decoder of CPython, one sequence at a time: \<open>Some c\<close> for a decoded code point,
  \<open>None\<close> for an error range (an invalid start byte, a lead byte with the valid
  continuation bytes that follow it, or a sequence the input ends in). The strict decoder
  raises at the first error range, the \<^verbatim>\<open>'replace'\<close> handler puts U+FFFD for each.
\<close>

definition is_cont :: "nat \<Rightarrow> bool" where
  "is_cont b = (128 \<le> b \<and> b < 192)"

definition second_ok3 :: "nat \<Rightarrow> nat \<Rightarrow> bool" where
  "second_ok3 b0 b1 =
     (is_cont b1 \<and> (if b1 < 160 then b0 \<noteq> 224 else b0 \<noteq> 237))"

definition second_ok4 :: "nat \<Rightarrow> nat \<Rightarrow> bool" where
  "second_ok4 b0 b1 =
     (is_cont b1 \<and> (if b1 < 144 then b0 \<noteq> 240 else b0 \<noteq> 244))"

fun utf8_scan :: "nat list \<Rightarrow> nat option list" where
  "utf8_scan [] = []"
| "utf8_scan (b0 # r1) =
     (if b0 < 128 then Some b0 # utf8_scan r1
      else if b0 < 194 then None # utf8_scan r1
      else if b0 < 224 then
        (case r1 of
           [] \<Rightarrow> [None]
         | b1 # r2 \<Rightarrow>
             if is_cont b1 then Some ((b0 mod 32) * 64 + b1 mod 64) # utf8_scan r2
             else None # utf8_scan r1)
      else if b0 < 240 then
        (case r1 of
           [] \<Rightarrow> [None]
         | b1 # r2 \<Rightarrow>
             if second_ok3 b0 b1 then
               (case r2 of
                  [] \<Rightarrow> [None]
                | b2 # r3 \<Rightarrow>
                    if is_cont b2
                    then Some ((b0 mod 16) * 4096 + (b1 mod 64) * 64 + b2 mod 64) # utf8_scan r3
                    else None # utf8_scan r2)
             else None # utf8_scan r1)
      else if b0 < 245 then
        (case r1 of
           [] \<Rightarrow> [None]
         | b1 # r2 \<Rightarrow>
             if second_ok4 b0 b1 then
               (case r2 of
                  [] \<Rightarrow> [None]
                | b2 # r3 \<Rightarrow>
                    if is_cont b2 then
                      (case r3 of
                         [] \<Rightarrow> [None]
                       | b3 # r4 \<Rightarrow>
                           if is_cont b3
                           then Some ((b0 mod 8) * 262144 + (b1 mod 64) * 4096
                                      + (b2 mod 64) * 64 + b3 mod 64) # utf8_scan r4
                           else None # utf8_scan r3)
                    else None # utf8_scan r2)
             else None # utf8_scan r1)
      else None # utf8_scan r1)"

definition utf8_decode :: "bytes \<Rightarrow> error + ustr" where
  "utf8_decode bs =
     (let r = utf8_scan (map unat bs)
      in if None \<in> set r then Inl UnicodeDecodeError else Inr (map the r))"

definition utf8_decode_replace :: "nat list \<Rightarrow> ustr" where
  "utf8_decode_replace bs = map (\<lambda>r. case r of None \<Rightarrow> 65533 | Some c \<Rightarrow> c) (utf8_scan bs)"

subsection \<open>binascii\<close>

definition hexdigit :: "nat \<Rightarrow> nat" where
  "hexdigit n = (if n < 10 then 48 + n else 87 + n)"

definition hexlify :: "bytes \<Rightarrow> bytes" where
  "hexlify bs =
     concat (map (\<lambda>b. [of_nat (hexdigit (unat b div 16)), of_nat (hexdigit (unat b mod 16))]) bs)"

definition hexval :: "nat \<Rightarrow> nat option" where
  "hexval c =
     (if 48 \<le> c \<and> c \<le> 57 then Some (c - 48)
      else if 97 \<le> c \<and> c \<le> 102 then Some (c - 87)
      else if 65 \<le> c \<and> c \<le> 70 then Some (c - 55)
      else None)"

fun hex_pairs :: "nat list \<Rightarrow> error + bytes" where
  "hex_pairs [] = Inr []"
| "hex_pairs [a] = Inl (BinasciiError ''Odd-length string'')"
| "hex_pairs (a # b # r) =
     (case (hexval a, hexval b) of
        (Some x, Some y) \<Rightarrow>
          (case hex_pairs r of Inl e \<Rightarrow> Inl e | Inr bs \<Rightarrow> Inr (of_nat (16 * x + y) # bs))
      | _ \<Rightarrow> Inl (BinasciiError ''Non-hexadecimal digit found''))"

definition a2b_hex :: "nat list \<Rightarrow> error + bytes" where
  "a2b_hex s =
     (if odd (length s) then Inl (BinasciiError ''Odd-length string'') else hex_pairs s)"

text \<open>\<^verbatim>\<open>binascii.unhexlify\<close> takes bytes, or a \<^verbatim>\<open>str\<close> of ASCII characters.\<close>

fun unhexlify :: "strlike \<Rightarrow> error + bytes" where
  "unhexlify (Str s) =
     (if list_all (\<lambda>c. c < 128) s then a2b_hex s
      else Inl (ValueError ''string argument should contain only ASCII characters''))"
| "unhexlify (Bytes b) = a2b_hex (map unat b)"

section \<open>urllib.parse\<close>

text \<open>
  The standard library as of CPython 3.11. Two checks inside \<^verbatim>\<open>urlsplit\<close> reach into
  other modules (\<^verbatim>\<open>ipaddress\<close> for a bracketed host, \<^verbatim>\<open>unicodedata\<close> for NFKC
  normalisation of a non-ASCII host); they are parameters of the model.
\<close>

record pylib =
  bracketed_host_ok :: "ustr \<Rightarrow> bool"
  nfkc :: "ustr \<Rightarrow> ustr"

record url_parts =
  scheme :: ustr
  netloc :: ustr
  path :: ustr
  params :: ustr
  query :: ustr
  fragment :: ustr

definition is_ascii_alpha :: "nat \<Rightarrow> bool" where
  "is_ascii_alpha c = ((97 \<le> c \<and> c \<le> 122) \<or> (65 \<le> c \<and> c \<le> 90))"

definition is_scheme_char :: "nat \<Rightarrow> bool" where
  "is_scheme_char c =
     (is_ascii_alpha c \<or> (48 \<le> c \<and> c \<le> 57) \<or> c = 43 \<or> c = 45 \<or> c = 46)"

definition ascii_lower :: "nat \<Rightarrow> nat" where
  "ascii_lower c = (if 65 \<le> c \<and> c \<le> 90 then c + 32 else c)"

text \<open>
  \<^verbatim>\<open>i = url.find(':')\<close>; with \<^verbatim>\<open>i > 0\<close>, a first character that is an ASCII letter and
  only scheme characters before the colon, the scheme is \<^verbatim>\<open>url[:i].lower()\<close>.
\<close>

definition split_scheme :: "ustr \<Rightarrow> ustr \<times> ustr" where
  "split_scheme url =
     (let pre = takeWhile (\<lambda>c. c \<noteq> 58) url
      in case url of
           [] \<Rightarrow> ([], url)
         | c0 # _ \<Rightarrow>
             if 58 \<in> set url \<and> pre \<noteq> [] \<and> is_ascii_alpha c0 \<and> list_all is_scheme_char pre
             then (map ascii_lower pre, drop (Suc (length pre)) url)
             else ([], url))"

definition netloc_delim :: "nat \<Rightarrow> bool" where
  "netloc_delim c = (c = 47 \<or> c = 63 \<or> c = 35)"

definition splitnetloc :: "ustr \<Rightarrow> ustr \<times> ustr" where
  "splitnetloc url =
     (takeWhile (\<lambda>c. \<not> netloc_delim c) (drop 2 url),
      dropWhile (\<lambda>c. \<not> netloc_delim c) (drop 2 url))"

definition checknetloc :: "pylib \<Rightarrow> ustr \<Rightarrow> bool" where
  "checknetloc lib nl =
     (if nl = [] \<or> list_all (\<lambda>c. c < 128) nl then True
      else (let n = filter (\<lambda>c. c \<noteq> 64 \<and> c \<noteq> 58 \<and> c \<noteq> 35 \<and> c \<noteq> 63) nl;
                n2 = nfkc lib n
            in n = n2 \<or> list_all (\<lambda>c. c \<noteq> 47 \<and> c \<noteq> 63 \<and> c \<noteq> 35 \<and> c \<noteq> 64 \<and> c \<noteq> 58) n2))"

definition urlsplit :: "pylib \<Rightarrow> ustr \<Rightarrow> error + url_parts" where
  "urlsplit lib url0 =
     (let url1 = filter (\<lambda>c. c \<noteq> 9 \<and> c \<noteq> 13 \<and> c \<noteq> 10) (dropWhile (\<lambda>c. c \<le> 32) url0);
          (sch, url2) = split_scheme url1;
          (nl, url3) = (if take 2 url2 = [47, 47] then splitnetloc url2 else ([], url2))
      in if (91 \<in> set nl \<and> 93 \<notin> set nl) \<or> (93 \<in> set nl \<and> 91 \<notin> set nl)
         then Inl (ValueError ''Invalid IPv6 URL'')
         else if 91 \<in> set nl \<and> 93 \<in> set nl
                 \<and> \<not> bracketed_host_ok lib
                      (takeWhile (\<lambda>c. c \<noteq> 93) (drop 1 (dropWhile (\<lambda>c. c \<noteq> 91) nl)))
         then Inl (ValueError ''invalid bracketed host'')
         else
           (let (url4, frag) =
                  (if 35 \<in> set url3
                   then (takeWhile (\<lambda>c. c \<noteq> 35) url3, drop 1 (dropWhile (\<lambda>c. c \<noteq> 35) url3))
                   else (url3, []));
                (url5, q) =
                  (if 63 \<in> set url4
                   then (takeWhile (\<lambda>c. c \<noteq> 63) url4, drop 1 (dropWhile (\<lambda>c. c \<noteq> 63) url4))
                   else (url4, []))
            in if checknetloc lib nl
               then Inr \<lparr>scheme = sch, netloc = nl, path = url5, params = [], query = q,
                         fragment = frag\<rparr>
               else Inl (ValueError ''netloc contains invalid characters under NFKC normalization'')))"

definition uses_params :: "ustr list" where
  "uses_params = map u [[], ''ftp'', ''hdl'', ''prospero'', ''http'', ''imap'', ''https'',
     ''shttp'', ''rtsp'', ''rtsps'', ''rtspu'', ''sip'', ''sips'', ''mms'', ''sftp'', ''tel'']"

text \<open>
  \<^verbatim>\<open>_splitparams\<close>: the parameters start at the first \<^verbatim>\<open>;\<close> of the last path segment.
\<close>

definition splitparams :: "ustr \<Rightarrow> ustr \<times> ustr" where
  "splitparams url =
     (let last_seg = rev (takeWhile (\<lambda>c. c \<noteq> 47) (rev url));
          before = take (length url - length last_seg) url
      in if 47 \<in> set url \<and> 59 \<notin> set last_seg then (url, [])
         else (before @ takeWhile (\<lambda>c. c \<noteq> 59) last_seg,
               drop 1 (dropWhile (\<lambda>c. c \<noteq> 59) last_seg)))"

definition urlparse :: "pylib \<Rightarrow> ustr \<Rightarrow> error + url_parts" where
  "urlparse lib url =
     (case urlsplit lib url of
        Inl e \<Rightarrow> Inl e
      | Inr r \<Rightarrow>
          if scheme r \<in> set uses_params \<and> 59 \<in> set (path r)
          then (let (p, ps) = splitparams (path r) in Inr (r\<lparr>path := p, params := ps\<rparr>))
          else Inr r)"

subsection \<open>Quoting\<close>

definition always_safe :: "nat \<Rightarrow> bool" where
  "always_safe b =
     (is_ascii_alpha b \<or> (48 \<le> b \<and> b \<le> 57) \<or> b = 95 \<or> b = 46 \<or> b = 45 \<or> b = 126)"

definition hexdigit_upper :: "nat \<Rightarrow> nat" where
  "hexdigit_upper n = (if n < 10 then 48 + n else 55 + n)"

definition quoter :: "ustr \<Rightarrow> nat \<Rightarrow> ustr" where
  "quoter safe b =
     (if always_safe b \<or> (b < 128 \<and> b \<in> set safe) then [b]
      else [37, hexdigit_upper (b div 16), hexdigit_upper (b mod 16)])"

definition quote :: "ustr \<Rightarrow> ustr \<Rightarrow> error + ustr" where
  "quote s safe =
     (if s = [] then Inr s
      else case utf8_encode s of
             Inl e \<Rightarrow> Inl e
           | Inr bs \<Rightarrow> Inr (concat (map (\<lambda>b. quoter safe (unat b)) bs)))"

definition quote_plus :: "ustr \<Rightarrow> ustr \<Rightarrow> error + ustr" where
  "quote_plus s safe =
     (if 32 \<notin> set s then quote s safe
      else case quote s (safe @ [32]) of
             Inl e \<Rightarrow> Inl e
           | Inr q \<Rightarrow> Inr (py_replace 32 43 q))"

text \<open>
  \<^verbatim>\<open>urlencode(query, safe=...)\<close> over the items of a dictionary whose keys are strings:
  \<^verbatim>\<open>quote_plus(str(k)) + '=' + quote_plus(str(v))\<close>, joined by \<^verbatim>\<open>&\<close>.
\<close>

fun urlencode_items :: "(ustr \<times> pyval) list \<Rightarrow> ustr \<Rightarrow> error + ustr list" where
  "urlencode_items [] safe = Inr []"
| "urlencode_items ((k, v) # kvs) safe =
     (case quote_plus k safe of
        Inl e \<Rightarrow> Inl e
      | Inr k' \<Rightarrow>
          (case quote_plus (py_str v) safe of
             Inl e \<Rightarrow> Inl e
           | Inr v' \<Rightarrow>
               (case urlencode_items kvs safe of
                  Inl e \<Rightarrow> Inl e
                | Inr l \<Rightarrow> Inr ((k' @ [61] @ v') # l))))"

definition urlencode :: "(ustr \<times> pyval) list \<Rightarrow> ustr \<Rightarrow> error + ustr" where
  "urlencode query_items safe =
     (case urlencode_items query_items safe of
        Inl e \<Rightarrow> Inl e
      | Inr l \<Rightarrow> Inr (py_join [38] l))"

subsection \<open>Unquoting and query strings\<close>

text \<open>
  \<^verbatim>\<open>unquote_to_bytes\<close>: \<^verbatim>\<open>%\<close> followed by two hexadecimal digits is the byte they
  name, every other \<^verbatim>\<open>%\<close> stays.
\<close>

fun unquote_to_bytes :: "nat list \<Rightarrow> nat list" where
  "unquote_to_bytes [] = []"
| "unquote_to_bytes (c # cs) =
     (if c = 37 then
        (case cs of
           h1 # h2 # rest \<Rightarrow>
             (case (hexval h1, hexval h2) of
                (Some x, Some y) \<Rightarrow> (16 * x + y) # unquote_to_bytes rest
              | _ \<Rightarrow> 37 # unquote_to_bytes cs)
         | _ \<Rightarrow> 37 # unquote_to_bytes cs)
      else c # unquote_to_bytes cs)"

text \<open>The maximal runs of characters on which \<open>P\<close> has the same value, in order.\<close>

fun runs :: "('a \<Rightarrow> bool) \<Rightarrow> 'a list \<Rightarrow> (bool \<times> 'a list) list" where
  "runs P [] = []"
| "runs P (x # xs) =
     (case runs P xs of
        [] \<Rightarrow> [(P x, [x])]
      | (b, r) # rs \<Rightarrow> if b = P x then (b, x # r) # rs else (P x, [x]) # (b, r) # rs)"

text \<open>
  \<^verbatim>\<open>unquote(string)\<close> with the defaults \<^verbatim>\<open>encoding='utf-8', errors='replace'\<close>: each run of
  ASCII characters is unquoted to bytes and decoded, the other characters stay.
\<close>

definition unquote :: "ustr \<Rightarrow> ustr" where
  "unquote s =
     (if 37 \<notin> set s then s
      else concat (map (\<lambda>(ascii, r). if ascii then utf8_decode_replace (unquote_to_bytes r) else r)
                       (runs (\<lambda>c. c < 128) s)))"

definition unquote_plus :: "ustr \<Rightarrow> ustr" where
  "unquote_plus s = unquote (py_replace 43 32 s)"

text \<open>
  \<^verbatim>\<open>parse_qsl(qs)\<close> with the defaults: fields are separated by \<^verbatim>\<open>&\<close>; an empty field and
  a field with an empty value (or none) are skipped.
\<close>

definition parse_field :: "ustr \<Rightarrow> (ustr \<times> ustr) list" where
  "parse_field name_value =
     (if name_value = [] then []
      else (let (name, has_eq, v) = py_partition 61 name_value
            in if v \<noteq> [] then [(unquote_plus name, unquote_plus v)] else []))"

definition parse_qsl :: "ustr \<Rightarrow> (ustr \<times> ustr) list" where
  "parse_qsl qs = (if qs = [] then [] else concat (map parse_field (py_split 38 qs)))"

text \<open>
  A dictionary keeps its keys in the order of their first insertion: an association list
  with distinct keys.
\<close>

fun dict_append :: "('k \<times> 'v list) list \<Rightarrow> 'k \<Rightarrow> 'v \<Rightarrow> ('k \<times> 'v list) list" where
  "dict_append [] k v = [(k, [v])]"
| "dict_append ((k', vs) # d) k v =
     (if k' = k then (k', vs @ [v]) # d else (k', vs) # dict_append d k v)"

definition parse_qs :: "ustr \<Rightarrow> (ustr \<times> ustr list) list" where
  "parse_qs qs = foldl (\<lambda>d (name, v). dict_append d name v) [] (parse_qsl qs)"

section \<open>Cryptodome\<close>

subsection \<open>The AES block cipher (FIPS 197)\<close>

text \<open>
  \<^verbatim>\<open>Cryptodome.Cipher.AES\<close> is the block cipher of FIPS 197. The state is the block of
  sixteen bytes in input order (column after column); a round key is sixteen bytes.
\<close>

definition sbox_table :: "8 word list list" where
  "sbox_table =
    [
     [0x63, 0x7c, 0x77, 0x7b, 0xf2, 0x6b, 0x6f, 0xc5, 0x30, 0x01, 0x67, 0x2b, 0xfe, 0xd7, 0xab, 0x76],
     [0xca, 0x82, 0xc9, 0x7d, 0xfa, 0x59, 0x47, 0xf0, 0xad, 0xd4, 0xa2, 0xaf, 0x9c, 0xa4, 0x72, 0xc0],
     [0xb7, 0xfd, 0x93, 0x26, 0x36, 0x3f, 0xf7, 0xcc, 0x34, 0xa5, 0xe5, 0xf1, 0x71, 0xd8, 0x31, 0x15],
     [0x04, 0xc7, 0x23, 0xc3, 0x18, 0x96, 0x05, 0x9a, 0x07, 0x12, 0x80, 0xe2, 0xeb, 0x27, 0xb2, 0x75],
     [0x09, 0x83, 0x2c, 0x1a, 0x1b, 0x6e, 0x5a, 0xa0, 0x52, 0x3b, 0xd6, 0xb3, 0x29, 0xe3, 0x2f, 0x84],
     [0x53, 0xd1, 0x00, 0xed, 0x20, 0xfc, 0xb1, 0x5b, 0x6a, 0xcb, 0xbe, 0x39, 0x4a, 0x4c, 0x58, 0xcf],
     [0xd0, 0xef, 0xaa, 0xfb, 0x43, 0x4d, 0x33, 0x85, 0x45, 0xf9, 0x02, 0x7f, 0x50, 0x3c, 0x9f, 0xa8],
     [0x51, 0xa3, 0x40, 0x8f, 0x92, 0x9d, 0x38, 0xf5, 0xbc, 0xb6, 0xda, 0x21, 0x10, 0xff, 0xf3, 0xd2],
     [0xcd, 0x0c, 0x13, 0xec, 0x5f, 0x97, 0x44, 0x17, 0xc4, 0xa7, 0x7e, 0x3d, 0x64, 0x5d, 0x19, 0x73],
     [0x60, 0x81, 0x4f, 0xdc, 0x22, 0x2a, 0x90, 0x88, 0x46, 0xee, 0xb8, 0x14, 0xde, 0x5e, 0x0b, 0xdb],
     [0xe0, 0x32, 0x3a, 0x0a, 0x49, 0x06, 0x24, 0x5c, 0xc2, 0xd3, 0xac, 0x62, 0x91, 0x95, 0xe4, 0x79],
     [0xe7, 0xc8, 0x37, 0x6d, 0x8d, 0xd5, 0x4e, 0xa9, 0x6c, 0x56, 0xf4, 0xea, 0x65, 0x7a, 0xae, 0x08],
     [0xba, 0x78, 0x25, 0x2e, 0x1c, 0xa6, 0xb4, 0xc6, 0xe8, 0xdd, 0x74, 0x1f, 0x4b, 0xbd, 0x8b, 0x8a],
     [0x70, 0x3e, 0xb5, 0x66, 0x48, 0x03, 0xf6, 0x0e, 0x61, 0x35, 0x57, 0xb9, 0x86, 0xc1, 0x1d, 0x9e],
     [0xe1, 0xf8, 0x98, 0x11, 0x69, 0xd9, 0x8e, 0x94, 0x9b, 0x1e, 0x87, 0xe9, 0xce, 0x55, 0x28, 0xdf],
     [0x8c, 0xa1, 0x89, 0x0d, 0xbf, 0xe6, 0x42, 0x68, 0x41, 0x99, 0x2d, 0x0f, 0xb0, 0x54, 0xbb, 0x16]
    ]"

definition inv_sbox_table :: "8 word list list" where
  "inv_sbox_table =
    [
     [0x52, 0x09, 0x6a, 0xd5, 0x30, 0x36, 0xa5, 0x38, 0xbf, 0x40, 0xa3, 0x9e, 0x81, 0xf3, 0xd7, 0xfb],
     [0x7c, 0xe3, 0x39, 0x82, 0x9b, 0x2f, 0xff, 0x87, 0x34, 0x8e, 0x43, 0x44, 0xc4, 0xde, 0xe9, 0xcb],
     [0x54, 0x7b, 0x94, 0x32, 0xa6, 0xc2, 0x23, 0x3d, 0xee, 0x4c, 0x95, 0x0b, 0x42, 0xfa, 0xc3, 0x4e],
     [0x08, 0x2e, 0xa1, 0x66, 0x28, 0xd9, 0x24, 0xb2, 0x76, 0x5b, 0xa2, 0x49, 0x6d, 0x8b, 0xd1, 0x25],
     [0x72, 0xf8, 0xf6, 0x64, 0x86, 0x68, 0x98, 0x16, 0xd4, 0xa4, 0x5c, 0xcc, 0x5d, 0x65, 0xb6, 0x92],
     [0x6c, 0x70, 0x48, 0x50, 0xfd, 0xed, 0xb9, 0xda, 0x5e, 0x15, 0x46, 0x57, 0xa7, 0x8d, 0x9d, 0x84],
     [0x90, 0xd8, 0xab, 0x00, 0x8c, 0xbc, 0xd3, 0x0a, 0xf7, 0xe4, 0x58, 0x05, 0xb8, 0xb3, 0x45, 0x06],
     [0xd0, 0x2c, 0x1e, 0x8f, 0xca, 0x3f, 0x0f, 0x02, 0xc1, 0xaf, 0xbd, 0x03, 0x01, 0x13, 0x8a, 0x6b],
     [0x3a, 0x91, 0x11, 0x41, 0x4f, 0x67, 0xdc, 0xea, 0x97, 0xf2, 0xcf, 0xce, 0xf0, 0xb4, 0xe6, 0x73],
     [0x96, 0xac, 0x74, 0x22, 0xe7, 0xad, 0x35, 0x85, 0xe2, 0xf9, 0x37, 0xe8, 0x1c, 0x75, 0xdf, 0x6e],
     [0x47, 0xf1, 0x1a, 0x71, 0x1d, 0x29, 0xc5, 0x89, 0x6f, 0xb7, 0x62, 0x0e, 0xaa, 0x18, 0xbe, 0x1b],
     [0xfc, 0x56, 0x3e, 0x4b, 0xc6, 0xd2, 0x79, 0x20, 0x9a, 0xdb, 0xc0, 0xfe, 0x78, 0xcd, 0x5a, 0xf4],
     [0x1f, 0xdd, 0xa8, 0x33, 0x88, 0x07, 0xc7, 0x31, 0xb1, 0x12, 0x10, 0x59, 0x27, 0x80, 0xec, 0x5f],
     [0x60, 0x51, 0x7f, 0xa9, 0x19, 0xb5, 0x4a, 0x0d, 0x2d, 0xe5, 0x7a, 0x9f, 0x93, 0xc9, 0x9c, 0xef],
     [0xa0, 0xe0, 0x3b, 0x4d, 0xae, 0x2a, 0xf5, 0xb0, 0xc8, 0xeb, 0xbb, 0x3c, 0x83, 0x53, 0x99, 0x61],
     [0x17, 0x2b, 0x04, 0x7e, 0xba, 0x77, 0xd6, 0x26, 0xe1, 0x69, 0x14, 0x63, 0x55, 0x21, 0x0c, 0x7d]
    ]"

text \<open>The tables are read as in the standard: the high half of the byte selects the row.\<close>

definition sbox :: "8 word \<Rightarrow> 8 word" where
  "sbox b = sbox_table ! (unat b div 16) ! (unat b mod 16)"

definition inv_sbox :: "8 word \<Rightarrow> 8 word" where
  "inv_sbox b = inv_sbox_table ! (unat b div 16) ! (unat b mod 16)"

definition xor_bytes :: "bytes \<Rightarrow> bytes \<Rightarrow> bytes" where
  "xor_bytes a b = map2 (XOR) a b"

definition sub_bytes :: "bytes \<Rightarrow> bytes" where
  "sub_bytes s = map sbox s"

definition inv_sub_bytes :: "bytes \<Rightarrow> bytes" where
  "inv_sub_bytes s = map inv_sbox s"

definition shift_rows :: "bytes \<Rightarrow> bytes" where
  "shift_rows s = map (\<lambda>i. s ! i) [0, 5, 10, 15, 4, 9, 14, 3, 8, 13, 2, 7, 12, 1, 6, 11]"

definition inv_shift_rows :: "bytes \<Rightarrow> bytes" where
  "inv_shift_rows s = map (\<lambda>i. s ! i) [0, 13, 10, 7, 4, 1, 14, 11, 8, 5, 2, 15, 12, 9, 6, 3]"

text \<open>Multiplication by \<open>x\<close> in GF(2^8) modulo \<open>x^8 + x^4 + x^3 + x + 1\<close>.\<close>

definition xtime :: "8 word \<Rightarrow> 8 word" where
  "xtime a = (if bit a 7 then push_bit 1 a XOR 0x1b else push_bit 1 a)"

definition mul3 :: "8 word \<Rightarrow> 8 word" where
  "mul3 a = xtime a XOR a"

definition mul9 :: "8 word \<Rightarrow> 8 word" where
  "mul9 a = xtime (xtime (xtime a)) XOR a"

definition mul11 :: "8 word \<Rightarrow> 8 word" where
  "mul11 a = xtime (xtime (xtime a)) XOR xtime a XOR a"

definition mul13 :: "8 word \<Rightarrow> 8 word" where
  "mul13 a = xtime (xtime (xtime a)) XOR xtime (xtime a) XOR a"

definition mul14 :: "8 word \<Rightarrow> 8 word" where
  "mul14 a = xtime (xtime (xtime a)) XOR xtime (xtime a) XOR xtime a"

fun mix_column :: "bytes \<Rightarrow> bytes" where
  "mix_column [a0, a1, a2, a3] =
     [xtime a0 XOR mul3 a1 XOR a2 XOR a3,
      a0 XOR xtime a1 XOR mul3 a2 XOR a3,
      a0 XOR a1 XOR xtime a2 XOR mul3 a3,
      mul3 a0 XOR a1 XOR a2 XOR xtime a3]"
| "mix_column col = col"

fun inv_mix_column :: "bytes \<Rightarrow> bytes" where
  "inv_mix_column [a0, a1, a2, a3] =
     [mul14 a0 XOR mul11 a1 XOR mul13 a2 XOR mul9 a3,
      mul9 a0 XOR mul14 a1 XOR mul11 a2 XOR mul13 a3,
      mul13 a0 XOR mul9 a1 XOR mul14 a2 XOR mul11 a3,
      mul11 a0 XOR mul13 a1 XOR mul9 a2 XOR mul14 a3]"
| "inv_mix_column col = col"

text \<open>A list cut into pieces of \<open>n\<close> elements (the last one may be shorter).\<close>

fun chop :: "nat \<Rightarrow> 'a list \<Rightarrow> 'a list list" where
  "chop n xs = (if n = 0 \<or> xs = [] then [] else take n xs # chop n (drop n xs))"

declare chop.simps [simp del]

definition mix_columns :: "bytes \<Rightarrow> bytes" where
  "mix_columns s = concat (map mix_column (chop 4 s))"

definition inv_mix_columns :: "bytes \<Rightarrow> bytes" where
  "inv_mix_columns s = concat (map inv_mix_column (chop 4 s))"

text \<open>
  Key expansion for a key of \<open>Nk\<close> words (4, 6 or 8): \<open>4 * (Nk + 7)\<close> words, four to a
  round key.
\<close>

definition rcon :: "nat \<Rightarrow> bytes" where
  "rcon j = [(xtime ^^ (j - 1)) 1, 0, 0, 0]"

definition next_word :: "nat \<Rightarrow> bytes list \<Rightarrow> bytes" where
  "next_word nk ws =
     (let i = length ws;
          temp = last ws;
          t = (if i mod nk = 0 then xor_bytes (map sbox (rotate1 temp)) (rcon (i div nk))
               else if 6 < nk \<and> i mod nk = 4 then map sbox temp
               else temp)
      in xor_bytes (ws ! (i - nk)) t)"

definition key_expansion :: "bytes \<Rightarrow> bytes list" where
  "key_expansion key =
     (let nk = length key div 4;
          ws = ((\<lambda>ws. ws @ [next_word nk ws]) ^^ (3 * nk + 28)) (chop 4 key)
      in map concat (chop 4 ws))"

definition round_fn :: "bytes \<Rightarrow> bytes \<Rightarrow> bytes" where
  "round_fn k s = xor_bytes (mix_columns (shift_rows (sub_bytes s))) k"

definition final_round :: "bytes \<Rightarrow> bytes \<Rightarrow> bytes" where
  "final_round k s = xor_bytes (shift_rows (sub_bytes s)) k"

definition inv_round :: "bytes \<Rightarrow> bytes \<Rightarrow> bytes" where
  "inv_round k s = inv_sub_bytes (inv_shift_rows (inv_mix_columns (xor_bytes s k)))"

definition inv_final_round :: "bytes \<Rightarrow> bytes \<Rightarrow> bytes" where
  "inv_final_round k s = inv_sub_bytes (inv_shift_rows (xor_bytes s k))"

text \<open>
  \<open>Cipher\<close> and \<open>InvCipher\<close> of FIPS 197 over the round keys \<open>k0, k1, ..., kNr\<close>: the first
  key is added, the keys between drive full rounds, the last one the round without
  \<open>MixColumns\<close>; the inverse undoes the rounds from the last to the first.
\<close>

definition cipher :: "bytes list \<Rightarrow> bytes \<Rightarrow> bytes" where
  "cipher rks blk =
     (case rks of
        [] \<Rightarrow> blk
      | k0 # ks \<Rightarrow>
          if ks = [] then xor_bytes blk k0
          else final_round (last ks) (fold round_fn (butlast ks) (xor_bytes blk k0)))"

definition inv_cipher :: "bytes list \<Rightarrow> bytes \<Rightarrow> bytes" where
  "inv_cipher rks blk =
     (case rks of
        [] \<Rightarrow> blk
      | k0 # ks \<Rightarrow>
          if ks = [] then xor_bytes blk k0
          else xor_bytes (foldr inv_round (butlast ks) (inv_final_round (last ks) blk)) k0)"

subsection \<open>CBC mode\<close>

fun cbc_encrypt_blocks :: "bytes list \<Rightarrow> bytes \<Rightarrow> bytes list \<Rightarrow> bytes list" where
  "cbc_encrypt_blocks rks iv [] = []"
| "cbc_encrypt_blocks rks iv (b # bs) =
     (let c = cipher rks (xor_bytes b iv) in c # cbc_encrypt_blocks rks c bs)"

fun cbc_decrypt_blocks :: "bytes list \<Rightarrow> bytes \<Rightarrow> bytes list \<Rightarrow> bytes list" where
  "cbc_decrypt_blocks rks iv [] = []"
| "cbc_decrypt_blocks rks iv (c # cs) =
     xor_bytes (inv_cipher rks c) iv # cbc_decrypt_blocks rks c cs"

text \<open>
  \<^verbatim>\<open>AES.new(key, AES.MODE_CBC, iv=iv)\<close>: the key must have 16, 24 or 32 bytes and the
  initialisation vector the 16 bytes of a block; both failures are a \<^verbatim>\<open>ValueError\<close>.
\<close>

record cbc_cipher =
  round_keys :: "bytes list"
  cbc_iv :: bytes

definition AES_new_cbc :: "bytes \<Rightarrow> bytes \<Rightarrow> error + cbc_cipher" where
  "AES_new_cbc key iv =
     (if length key \<noteq> 16 \<and> length key \<noteq> 24 \<and> length key \<noteq> 32
      then Inl (ValueError ''Incorrect AES key length'')
      else if length iv \<noteq> 16
      then Inl (ValueError ''Incorrect IV length (it must be 16 bytes long)'')
      else Inr \<lparr>round_keys = key_expansion key, cbc_iv = iv\<rparr>)"

definition cbc_encrypt :: "cbc_cipher \<Rightarrow> bytes \<Rightarrow> error + bytes" where
  "cbc_encrypt c data =
     (if length data mod 16 \<noteq> 0
      then Inl (ValueError ''Data must be padded to 16 byte boundary in CBC mode'')
      else Inr (concat (cbc_encrypt_blocks (round_keys c) (cbc_iv c) (chop 16 data))))"

definition cbc_decrypt :: "cbc_cipher \<Rightarrow> bytes \<Rightarrow> error + bytes" where
  "cbc_decrypt c data =
     (if length data mod 16 \<noteq> 0
      then Inl (ValueError ''Data must be padded to 16 byte boundary in CBC mode'')
      else Inr (concat (cbc_decrypt_blocks (round_keys c) (cbc_iv c) (chop 16 data))))"

subsection \<open>Padding\<close>

text \<open>\<^verbatim>\<open>Cryptodome.Util.Padding\<close> with the default style \<^verbatim>\<open>pkcs7\<close>.\<close>

definition pad :: "bytes \<Rightarrow> nat \<Rightarrow> bytes" where
  "pad data_to_pad block_size =
     (let padding_len = block_size - length data_to_pad mod block_size
      in data_to_pad @ replicate padding_len (of_nat padding_len))"

definition unpad :: "bytes \<Rightarrow> nat \<Rightarrow> error + bytes" where
  "unpad padded_data block_size =
     (let pdata_len = length padded_data
      in if pdata_len = 0 then Inl (ValueError ''Zero-length input cannot be unpadded'')
         else if pdata_len mod block_size \<noteq> 0 then Inl (ValueError ''Input data is not padded'')
         else (let padding_len = unat (last padded_data)
               in if padding_len < 1 \<or> min block_size pdata_len < padding_len
                  then Inl (ValueError ''Padding is incorrect.'')
                  else if drop (pdata_len - padding_len) padded_data
                          \<noteq> replicate padding_len (of_nat padding_len)
                  then Inl (ValueError ''PKCS#7 padding is incorrect.'')
                  else Inr (take (pdata_len - padding_len) padded_data)))"

section \<open>util.py\<close>

definition PADDING_OFFSET :: nat where
  "PADDING_OFFSET = 16"

text \<open>
  \<^verbatim>\<open>FILTER_CHARS\<close>: the characters \<^verbatim>\<open>!#$%^&*()+[]\\';,{}|":<>?~`\<close>; the backslash (92), the
  quotes (39, 34) and the backquote (96) are given by their code points.
\<close>

definition FILTER_CHARS :: ustr where
  "FILTER_CHARS = u ''!#$%^&*()+[]'' @ [92, 39] @ u '';,{}|'' @ [34] @ u '':<>?~'' @ [96]"

definition LANG_LOOKUP :: "ustr \<Rightarrow> ustr option" where
  "LANG_LOOKUP = map_of [(u ''en'', u ''USA''), (u ''ar'', u ''ARA'')]"

definition validate_gw_url :: "pylib \<Rightarrow> ustr \<Rightarrow> error + ustr" where
  "validate_gw_url lib s =
     (case urlparse lib s of
        Inl e \<Rightarrow> Inl e
      | Inr p \<Rightarrow>
          if scheme p \<noteq> u ''http'' \<and> scheme p \<noteq> u ''https''
          then Inl (InvalidUrl ''Scheme should be http or https'')
          else if query p \<noteq> [] then Inl (InvalidUrl ''URL cannot have a query string'')
          else Inr s)"

text \<open>
  In Python 3 \<^verbatim>\<open>str.translate\<close> takes the translation table and nothing else: a call with
  two positional arguments raises \<^verbatim>\<open>TypeError\<close> before it looks at either. (The call
  \<^verbatim>\<open>translate(None, deletechars)\<close> is the one of Python 2's \<^verbatim>\<open>str\<close>.)
\<close>

definition str_translate2 :: "ustr \<Rightarrow> pyval \<Rightarrow> ustr \<Rightarrow> error + ustr" where
  "str_translate2 s table deletechars =
     Inl (TypeError ''str.translate() takes exactly one argument (2 given)'')"

definition sanitize :: "ustr \<Rightarrow> error + ustr" where
  "sanitize text = str_translate2 (py_strip text) PNone FILTER_CHARS"

text \<open>
  The files, the keystore reader (\<^verbatim>\<open>jks\<close>), Triple DES (\<^verbatim>\<open>pyDes\<close>), the archive reader
  (\<^verbatim>\<open>zipfile\<close>), the XML parser, the currency table (\<^verbatim>\<open>iso4217\<close>) and the clock are the
  environment of the program:
  \<^item> \<open>jks_load path passphrase\<close>: the secret keys of the keystore, by alias;
  \<^item> \<open>triple_des key\<close>: the \<^verbatim>\<open>decrypt\<close> method of the ECB cipher with PKCS5 padding;
  \<^item> \<open>read_file path\<close>: the bytes of the file;
  \<^item> \<open>zip_entries data\<close>: the entries of the archive in order, each with what reading
    it gives;
  \<^item> \<open>xml_children data\<close>: tag and text of the children of the document's root;
  \<^item> \<open>currency_number code\<close>: the numeric code of an ISO 4217 currency;
  \<^item> \<open>time_now\<close>: \<^verbatim>\<open>int(time.time())\<close>.
\<close>

record env =
  jks_load :: "ustr \<Rightarrow> ustr \<Rightarrow> error + (ustr \<times> bytes) list"
  triple_des :: "bytes \<Rightarrow> error + (bytes \<Rightarrow> error + bytes)"
  read_file :: "ustr \<Rightarrow> error + bytes"
  zip_entries :: "bytes \<Rightarrow> error + (ustr \<times> (error + bytes)) list"
  xml_children :: "bytes \<Rightarrow> error + (ustr \<times> ustr option) list"
  currency_number :: "ustr \<Rightarrow> error + int"
  time_now :: int

definition load_keystore :: "env \<Rightarrow> ustr \<Rightarrow> ustr \<Rightarrow> ustr \<Rightarrow> error + bytes" where
  "load_keystore E keystore_path key_name passphrase =
     (case jks_load E keystore_path passphrase of
        Inl e \<Rightarrow> Inl e
      | Inr secret_keys \<Rightarrow>
          (case map_of secret_keys key_name of
             None \<Rightarrow> Inl KeyNotFound
           | Some pk \<Rightarrow> Inr pk))"

definition read_resource_file :: "env \<Rightarrow> ustr \<Rightarrow> ustr \<Rightarrow> ustr \<Rightarrow> error + bytes" where
  "read_resource_file E resource_path keystore_path alias =
     (case load_keystore E keystore_path (u ''pgkey'') (u ''password'') of
        Inl e \<Rightarrow> Inl e
      | Inr k \<Rightarrow>
     (case triple_des E k of
        Inl e \<Rightarrow> Inl e
      | Inr crypto_decrypt \<Rightarrow>
     (case read_file E resource_path of
        Inl e \<Rightarrow> Inl e
      | Inr contents \<Rightarrow>
     (case crypto_decrypt contents of
        Inl e \<Rightarrow> Inl e
      | Inr resource_data \<Rightarrow>
     (case zip_entries E resource_data of
        Inl e \<Rightarrow> Inl e
      | Inr zip_data \<Rightarrow>
          if alias @ u ''.xml'' \<notin> set (map fst zip_data) then Inl (InvalidAlias alias)
          else
            (case map_of (rev zip_data) (alias @ u ''.xml'') of
               None \<Rightarrow> Inl (KeyError (alias @ u ''.xml''))
             | Some (Inl e) \<Rightarrow> Inl e
             | Some (Inr entry) \<Rightarrow> crypto_decrypt entry))))))"

definition encrypt_payload :: "ustr \<Rightarrow> ustr \<Rightarrow> error + bytes" where
  "encrypt_payload plain_text key_str =
     (case utf8_encode key_str of
        Inl e \<Rightarrow> Inl e
      | Inr k \<Rightarrow>
     (case AES_new_cbc k k of
        Inl e \<Rightarrow> Inl e
      | Inr crypt \<Rightarrow>
     (case utf8_encode plain_text of
        Inl e \<Rightarrow> Inl e
      | Inr data \<Rightarrow>
     (case cbc_encrypt crypt (pad data PADDING_OFFSET) of
        Inl e \<Rightarrow> Inl e
      | Inr ct \<Rightarrow> Inr (hexlify ct)))))"

definition decrypt_payload :: "strlike \<Rightarrow> ustr \<Rightarrow> error + ustr" where
  "decrypt_payload encrypted_text key_str =
     (case utf8_encode key_str of
        Inl e \<Rightarrow> Inl e
      | Inr k \<Rightarrow>
     (case unhexlify encrypted_text of
        Inl e \<Rightarrow> Inl e
      | Inr raw \<Rightarrow>
     (case AES_new_cbc k k of
        Inl e \<Rightarrow> Inl e
      | Inr crypt \<Rightarrow>
     (case cbc_decrypt crypt raw of
        Inl e \<Rightarrow> Inl e
      | Inr padded \<Rightarrow>
     (case unpad padded PADDING_OFFSET of
        Inl e \<Rightarrow> Inl e
      | Inr data \<Rightarrow> utf8_decode data)))))"

section \<open>pyipay.py\<close>

text \<open>
  The attributes of a \<^verbatim>\<open>Gateway\<close>. The four terminal settings are the \<^verbatim>\<open>text\<close> of XML
  elements, which is \<^verbatim>\<open>None\<close> for an empty element. \<open>tracking_id = None\<close> says that the
  instance has no attribute \<^verbatim>\<open>tracking_id\<close>. \<open>response_url\<close> and \<open>error_url\<close> stand for
  \<^verbatim>\<open>_response_url\<close> and \<^verbatim>\<open>_error_url\<close>, \<open>udf1\<close> to \<open>udf5\<close> for \<^verbatim>\<open>_udf1\<close> to \<^verbatim>\<open>_udf5\<close>, \<open>pgw_url\<close>
  for \<^verbatim>\<open>_pgw_url\<close>.
\<close>

record gateway =
  lang :: ustr
  currency :: int
  amount :: pyval
  password :: "ustr option"
  key :: "ustr option"
  portal_id :: "ustr option"
  pgw_url :: "ustr option"
  tracking_id :: "ustr option"
  udf1 :: ustr
  udf2 :: ustr
  udf3 :: ustr
  udf4 :: ustr
  udf5 :: ustr
  response_url :: "ustr option"
  error_url :: "ustr option"

text \<open>
  \<^verbatim>\<open>Gateway.__init__\<close>. \<open>tracking_id = None\<close> is the default of the parameter. The
  dictionary \<^verbatim>\<open>{c.tag: c.text for c in root}\<close> keeps the last child of each tag.
\<close>

definition Gateway_init ::
  "env \<Rightarrow> ustr \<Rightarrow> ustr \<Rightarrow> ustr \<Rightarrow> pyval \<Rightarrow> ustr \<Rightarrow> ustr \<Rightarrow> ustr option \<Rightarrow> error + gateway" where
  "Gateway_init E keystore resource alias amt lng cur tracking =
     (case currency_number E cur of
        Inl e \<Rightarrow> Inl e
      | Inr num \<Rightarrow>
     (case read_resource_file E resource keystore alias of
        Inl e \<Rightarrow> Inl e
      | Inr terminal_configuration \<Rightarrow>
     (case xml_children E terminal_configuration of
        Inl e \<Rightarrow> Inl e
      | Inr root \<Rightarrow>
     (let terminal = map_of (rev root)
      in case terminal (u ''password'') of
           None \<Rightarrow> Inl (KeyError (u ''password''))
         | Some pw \<Rightarrow>
        (case terminal (u ''resourceKey'') of
           None \<Rightarrow> Inl (KeyError (u ''resourceKey''))
         | Some rk \<Rightarrow>
        (case terminal (u ''id'') of
           None \<Rightarrow> Inl (KeyError (u ''id''))
         | Some pid \<Rightarrow>
        (case terminal (u ''webaddress'') of
           None \<Rightarrow> Inl (KeyError (u ''webaddress''))
         | Some wa \<Rightarrow>
             Inr \<lparr>lang = (case LANG_LOOKUP lng of None \<Rightarrow> u ''USA'' | Some l \<Rightarrow> l),
                  currency = num,
                  amount = amt,
                  password = pw,
                  key = rk,
                  portal_id = pid,
                  pgw_url = wa,
                  tracking_id =
                    (case tracking of None \<Rightarrow> Some (str_int (time_now E)) | Some t \<Rightarrow> None),
                  udf1 = [], udf2 = [], udf3 = [], udf4 = [], udf5 = [],
                  response_url = None,
                  error_url = None\<rparr>)))))))"

definition set_udf1 :: "gateway \<Rightarrow> ustr \<Rightarrow> error + gateway" where
  "set_udf1 self s = (case sanitize s of Inl e \<Rightarrow> Inl e | Inr v \<Rightarrow> Inr (self\<lparr>udf1 := v\<rparr>))"

definition set_udf2 :: "gateway \<Rightarrow> ustr \<Rightarrow> error + gateway" where
  "set_udf2 self s = (case sanitize s of Inl e \<Rightarrow> Inl e | Inr v \<Rightarrow> Inr (self\<lparr>udf2 := v\<rparr>))"

definition set_udf3 :: "gateway \<Rightarrow> ustr \<Rightarrow> error + gateway" where
  "set_udf3 self s = (case sanitize s of Inl e \<Rightarrow> Inl e | Inr v \<Rightarrow> Inr (self\<lparr>udf3 := v\<rparr>))"

definition set_udf4 :: "gateway \<Rightarrow> ustr \<Rightarrow> error + gateway" where
  "set_udf4 self s = (case sanitize s of Inl e \<Rightarrow> Inl e | Inr v \<Rightarrow> Inr (self\<lparr>udf4 := v\<rparr>))"

definition set_udf5 :: "gateway \<Rightarrow> ustr \<Rightarrow> error + gateway" where
  "set_udf5 self s = (case sanitize s of Inl e \<Rightarrow> Inl e | Inr v \<Rightarrow> Inr (self\<lparr>udf5 := v\<rparr>))"

definition set_response_url :: "pylib \<Rightarrow> gateway \<Rightarrow> ustr \<Rightarrow> error + gateway" where
  "set_response_url lib self s =
     (case validate_gw_url lib s of
        Inl e \<Rightarrow> Inl e
      | Inr v \<Rightarrow> Inr (self\<lparr>response_url := Some v\<rparr>))"

definition set_error_url :: "pylib \<Rightarrow> gateway \<Rightarrow> ustr \<Rightarrow> error + gateway" where
  "set_error_url lib self s =
     (case validate_gw_url lib s of
        Inl e \<Rightarrow> Inl e
      | Inr v \<Rightarrow> Inr (self\<lparr>error_url := Some v\<rparr>))"

text \<open>\<^verbatim>\<open>getattr(self, name)\<close> on the attributes and properties of the instance.\<close>

definition getattr :: "gateway \<Rightarrow> string \<Rightarrow> error + pyval" where
  "getattr self name =
     (if name = ''lang'' then Inr (PStr (lang self))
      else if name = ''currency'' then Inr (PInt (currency self))
      else if name = ''amount'' then Inr (amount self)
      else if name = ''password'' then Inr (opt_val (password self))
      else if name = ''key'' then Inr (opt_val (key self))
      else if name = ''portal_id'' then Inr (opt_val (portal_id self))
      else if name = ''tracking_id'' then
        (case tracking_id self of
           None \<Rightarrow> Inl (AttributeError ''Gateway object has no attribute tracking_id'')
         | Some t \<Rightarrow> Inr (PStr t))
      else if name = ''udf1'' then Inr (PStr (udf1 self))
      else if name = ''udf2'' then Inr (PStr (udf2 self))
      else if name = ''udf3'' then Inr (PStr (udf3 self))
      else if name = ''udf4'' then Inr (PStr (udf4 self))
      else if name = ''udf5'' then Inr (PStr (udf5 self))
      else if name = ''response_url'' then Inr (opt_val (response_url self))
      else if name = ''error_url'' then Inr (opt_val (error_url self))
      else Inl (AttributeError (''Gateway object has no attribute '' @ name)))"

text \<open>
  \<^verbatim>\<open>all(getattr(self, i) for i in props)\<close>: the attributes are read in order, up to the
  first one that is not true.
\<close>

fun all_set :: "gateway \<Rightarrow> string list \<Rightarrow> error + bool" where
  "all_set self [] = Inr True"
| "all_set self (i # props) =
     (case getattr self i of
        Inl e \<Rightarrow> Inl e
      | Inr v \<Rightarrow> if truthy v then all_set self props else Inr False)"

text \<open>
  The decorator \<^verbatim>\<open>check_if_set(props)\<close> around a method \<open>f\<close> of name \<open>f_name\<close>. The wrapper
  calls \<open>f\<close> and has no \<^verbatim>\<open>return\<close>: what \<open>f\<close> returns is dropped and the call gives
  \<^verbatim>\<open>None\<close>.
\<close>

definition check_if_set ::
  "string list \<Rightarrow> string \<Rightarrow> (gateway \<Rightarrow> error + 'a) \<Rightarrow> gateway \<Rightarrow> error + pyval" where
  "check_if_set props f_name f self =
     (case all_set self props of
        Inl e \<Rightarrow> Inl e
      | Inr ok \<Rightarrow>
          if ok then (case f self of Inl e \<Rightarrow> Inl e | Inr r \<Rightarrow> Inr PNone)
          else Inl (AttributeError
                 (join_text '','' props @ '' must be set before '' @ f_name @ '' can be called'')))"

text \<open>
  The \<open>action\<close> parameter of the private methods is a member of \<^verbatim>\<open>Action\<close> or the
  integer that is its value.
\<close>

datatype action_arg = Member Action | Code int

fun attr_value :: "action_arg \<Rightarrow> error + action_arg" where
  "attr_value (Member a) = Inr (Code (Action_value a))"
| "attr_value (Code n) = Inl (AttributeError ''int object has no attribute value'')"

definition build_param_dict :: "gateway \<Rightarrow> action_arg \<Rightarrow> error + (ustr \<times> pyval) list" where
  "build_param_dict self action =
     (if action = Code 1 then
        (case getattr self ''tracking_id'' of
           Inl e \<Rightarrow> Inl e
         | Inr trackid \<Rightarrow>
             Inr [(u ''action'', PInt 1),
                  (u ''id'', opt_val (portal_id self)),
                  (u ''password'', opt_val (password self)),
                  (u ''langid'', PStr (lang self)),
                  (u ''currencycode'', PInt (currency self)),
                  (u ''trackid'', trackid),
                  (u ''amt'', amount self),
                  (u ''udf1'', PStr (udf1 self)),
                  (u ''udf2'', PStr (udf2 self)),
                  (u ''udf3'', PStr (udf3 self)),
                  (u ''udf4'', PStr (udf4 self)),
                  (u ''udf5'', PStr (udf5 self)),
                  (u ''responseURL'', opt_val (response_url self)),
                  (u ''errorURL'', opt_val (error_url self))])
      else Inr [])"

definition build_payload :: "gateway \<Rightarrow> action_arg \<Rightarrow> error + ustr" where
  "build_payload self action =
     (case attr_value action of
        Inl e \<Rightarrow> Inl e
      | Inr a \<Rightarrow>
     (case build_param_dict self a of
        Inl e \<Rightarrow> Inl e
      | Inr ps \<Rightarrow>
     (case urlencode (filter (\<lambda>(k, v). truthy v) ps) (u '':/'') of
        Inl e \<Rightarrow> Inl e
      | Inr d \<Rightarrow>
     (case key self of
        None \<Rightarrow> Inl (AttributeError ''NoneType object has no attribute encode'')
      | Some k \<Rightarrow>
     (case encrypt_payload d k of
        Inl e \<Rightarrow> Inl e
      | Inr payload \<Rightarrow> utf8_decode payload)))))"

definition get_redirect_url :: "gateway \<Rightarrow> action_arg \<Rightarrow> error + ustr" where
  "get_redirect_url self action =
     (case attr_value action of
        Inl e \<Rightarrow> Inl e
      | Inr a \<Rightarrow>
     (case build_payload self a of
        Inl e \<Rightarrow> Inl e
      | Inr payload \<Rightarrow>
          Inr (py_str (opt_val (pgw_url self)) @ u ''/PaymentHTTP.htm?param=paymentInit&trandata=''
               @ payload
               @ u ''&tranportalId='' @ py_str (opt_val (portal_id self))
               @ u ''&responseURL='' @ py_str (opt_val (response_url self))
               @ u ''&errorURL='' @ py_str (opt_val (error_url self)))))"

text \<open>\<^verbatim>\<open>v[0]\<close>.\<close>

definition first :: "'a list \<Rightarrow> error + 'a" where
  "first v = (case v of [] \<Rightarrow> Inl IndexError | x # _ \<Rightarrow> Inr x)"

definition parse_response ::
  "gateway \<Rightarrow> ustr \<Rightarrow> error + (ustr \<times> ustr list) list \<times> (ustr \<times> ustr list) list" where
  "parse_response self raw_response =
     (let results = parse_qs raw_response
      in case map_of results (u ''trandata'') of
           None \<Rightarrow>
             Inl (InvalidGatewayResponse
                    ''Invalid response from the gateway, missing encrypted data'')
         | Some encrypted_payload \<Rightarrow>
        (case first encrypted_payload of
           Inl e \<Rightarrow> Inl e
         | Inr p \<Rightarrow>
        (case key self of
           None \<Rightarrow> Inl (AttributeError ''NoneType object has no attribute encode'')
         | Some k \<Rightarrow>
        (case decrypt_payload (Str p) k of
           Inl e \<Rightarrow> Inl e
         | Inr plain \<Rightarrow>
             Inr (filter (\<lambda>(k', v). k' \<noteq> u ''trandata'') results, parse_qs plain)))))"

text \<open>\<^verbatim>\<open>{k: v[0] for k, v in common.items()}\<close>.\<close>

fun first_values :: "('k \<times> 'v list) list \<Rightarrow> error + ('k \<times> 'v) list" where
  "first_values [] = Inr []"
| "first_values ((k, v) # kvs) =
     (case first v of
        Inl e \<Rightarrow> Inl e
      | Inr x \<Rightarrow> (case first_values kvs of Inl e \<Rightarrow> Inl e | Inr d \<Rightarrow> Inr ((k, x) # d)))"

text \<open>The loop over \<^verbatim>\<open>decrypted.items()\<close>: a key that \<open>d\<close> does not have yet is added.\<close>

fun merge_decrypted :: "('k \<times> 'v) list \<Rightarrow> ('k \<times> 'v list) list \<Rightarrow> error + ('k \<times> 'v) list" where
  "merge_decrypted d [] = Inr d"
| "merge_decrypted d ((k, v) # kvs) =
     (if k \<in> set (map fst d) then merge_decrypted d kvs
      else (case first v of
              Inl e \<Rightarrow> Inl e
            | Inr x \<Rightarrow> merge_decrypted (d @ [(k, x)]) kvs))"

definition get_result :: "gateway \<Rightarrow> ustr \<Rightarrow> error + (ustr \<times> ustr) list" where
  "get_result self response =
     (case parse_response self response of
        Inl e \<Rightarrow> Inl e
      | Inr (common, decrypted) \<Rightarrow>
          (case first_values common of
             Inl e \<Rightarrow> Inl e
           | Inr d \<Rightarrow> merge_decrypted d decrypted))"

text \<open>
  \<^verbatim>\<open>generate_purchase_request\<close>, decorated with
  \<^verbatim>\<open>@check_if_set(['response_url', 'error_url'])\<close>. No method on this path assigns to an
  attribute: the instance is returned as it came, beside the outcome of the call.
\<close>

definition generate_purchase_request :: "gateway \<Rightarrow> (error + pyval) \<times> gateway" where
  "generate_purchase_request self =
     (check_if_set [''response_url'', ''error_url''] ''generate_purchase_request''
        (\<lambda>s. get_redirect_url s (Member PURCHASE)) self,
      self)"

section \<open>Vocabulary of the properties\<close>

text \<open>
  An attribute is unset when it is \<^verbatim>\<open>None\<close> or the empty string: the values of a \<^verbatim>\<open>str\<close>
  attribute that \<^verbatim>\<open>check_if_set\<close> takes for false.
\<close>

definition unset :: "ustr option \<Rightarrow> bool" where
  "unset x = (x = None \<or> x = Some [])"

text \<open>The tags \<^verbatim>\<open>__init__\<close> reads from the terminal configuration.\<close>

definition required_keys :: "ustr list" where
  "required_keys = [u ''password'', u ''resourceKey'', u ''id'', u ''webaddress'']"

text \<open>
  The values a field has in a query string, in the order of their occurrence
  (after \<^verbatim>\<open>parse_qsl\<close> has dropped the fields without a value).
\<close>

definition occurrences :: "ustr \<Rightarrow> ustr \<Rightarrow> ustr list" where
  "occurrences k qs = map snd (filter (\<lambda>p. fst p = k) (parse_qsl qs))"

subsection \<open>Sample data\<close>

text \<open>
  A gateway as the end-to-end scenario of the specification configures it, an
  environment whose resource file holds that terminal under the alias \<^verbatim>\<open>shop\<close>, and a
  library whose two outside checks accept everything.
\<close>

definition example_gateway :: gateway where
  "example_gateway =
     \<lparr>lang = u ''USA'', currency = 414, amount = PObj True (u ''10.5''),
      password = Some (u ''pw''), key = Some (u ''0123456789abcdef''),
      portal_id = Some (u ''T001''), pgw_url = Some (u ''https://gw.example.com''),
      tracking_id = Some (u ''1700000000''),
      udf1 = [], udf2 = [], udf3 = [], udf4 = [], udf5 = [],
      response_url = Some (u ''https://example.com/response''),
      error_url = Some (u ''https://example.com/error'')\<rparr>"

definition example_terminal :: "(ustr \<times> ustr option) list" where
  "example_terminal =
     [(u ''id'', Some (u ''T001'')), (u ''password'', Some (u ''pw'')),
      (u ''resourceKey'', Some (u ''0123456789abcdef'')),
      (u ''webaddress'', Some (u ''https://gw.example.com''))]"

definition example_env :: "(ustr \<times> ustr option) list \<Rightarrow> env" where
  "example_env terminal =
     \<lparr>jks_load = (\<lambda>path passphrase. Inr [(u ''pgkey'', replicate 24 1)]),
      triple_des = (\<lambda>k. Inr (\<lambda>data. Inr data)),
      read_file = (\<lambda>path. Inr []),
      zip_entries = (\<lambda>data. Inr [(u ''shop.xml'', Inr [])]),
      xml_children = (\<lambda>data. Inr terminal),
      currency_number =
        (\<lambda>c. if c = u ''KWD'' then Inr 414 else Inl (ValueError ''not a valid Currency'')),
      time_now = 1700000000\<rparr>"

definition example_lib :: pylib where
  "example_lib = \<lparr>bracketed_host_ok = (\<lambda>h. True), nfkc = (\<lambda>s. s)\<rparr>"

subsection \<open>Data of the proofs\<close>

text \<open>The sixteen values of half a byte, to go through the substitution tables.\<close>

definition nibbles :: "nat list" where
  "nibbles = [0, 1, 2, 3, 4, 5, 6, 7, 8, 9, 10, 11, 12, 13, 14, 15]"

text \<open>The eleven round keys of the sample key \<^verbatim>\<open>0123456789abcdef\<close>.\<close>

definition example_round_keys :: "bytes list" where
  "example_round_keys =
     [[48, 49, 50, 51, 52, 53, 54, 55, 56, 57, 97, 98, 99, 100, 101, 102],
      [114, 124, 1, 200, 70, 73, 55, 255, 126, 112, 86, 157, 29, 20, 51, 251],
      [138, 191, 14, 108, 204, 246, 57, 147, 178, 134, 111, 14, 175, 146, 92, 245],
      [193, 245, 232, 21, 13, 3, 209, 134, 191, 133, 190, 136, 16, 23, 226, 125],
      [57, 109, 23, 223, 52, 110, 198, 89, 139, 235, 120, 209, 155, 252, 154, 172],
      [153, 213, 134, 203, 173, 187, 64, 146, 38, 80, 56, 67, 189, 172, 162, 239],
      [40, 239, 89, 177, 133, 84, 25, 35, 163, 4, 33, 96, 30, 168, 131, 143],
      [170, 3, 42, 195, 47, 87, 51, 224, 140, 83, 18, 128, 146, 251, 145, 15],
      [37, 130, 92, 140, 10, 213, 111, 108, 134, 134, 125, 236, 20, 125, 236, 227],
      [193, 76, 77, 118, 203, 153, 34, 26, 77, 31, 95, 246, 89, 98, 179, 21],
      [93, 33, 20, 189, 150, 184, 54, 167, 219, 167, 105, 81, 130, 197, 218, 68]]"

section \<open>Properties\<close>

subsection \<open>Auxiliary facts\<close>

lemma u_simps: "u [] = []" "u (c # cs) = of_char c # u cs"
  by (simp_all add: u_def)

lemma truthy_opt_val: "truthy (opt_val x) = (\<not> unset x)"
  by (cases x) (auto simp: unset_def)

lemma all_set_urls:
  "all_set self [''response_url'', ''error_url'']
     = Inr (\<not> unset (response_url self) \<and> \<not> unset (error_url self))"
  by (simp add: getattr_def truthy_opt_val)

lemma example_env_fields:
  "currency_number (example_env t) (u ''KWD'') = Inr 414"
  "xml_children (example_env t) d = Inr t"
  "time_now (example_env t) = 1700000000"
  by (simp_all add: example_env_def)

lemma example_env_resource:
  "read_resource_file (example_env t) (u ''resource.cgn'') (u ''keystore.bin'') (u ''shop'') = Inr []"
  by (simp add: read_resource_file_def load_keystore_def example_env_def u_simps)

subsection \<open>Sanitising\<close>

text \<open>
  C5. The claim is that \<open>sanitize\<close> is idempotent and that its result holds no character
  of \<open>FILTER_CHARS\<close>. The function never has a result: on every string it raises the
  \<^verbatim>\<open>TypeError\<close> of the two-argument call of \<^verbatim>\<open>str.translate\<close>.
\<close>

theorem sanitize_raises_TypeError:
  "sanitize s = Inl (TypeError ''str.translate() takes exactly one argument (2 given)'')"
  by (simp add: sanitize_def str_translate2_def)

subsection \<open>Generating the purchase request\<close>

text \<open>
  C3. With \<open>response_url\<close> or \<open>error_url\<close> unset, \<open>generate_purchase_request\<close> raises the
  \<^verbatim>\<open>AttributeError\<close> of \<open>check_if_set\<close> (the precondition error of the specification); its
  message lists both attributes, so it names every unset one; the instance is unchanged.
\<close>

theorem generate_purchase_request_unset_urls:
  assumes "unset (response_url self) \<or> unset (error_url self)"
  shows "\<exists>msg. generate_purchase_request self = (Inl (AttributeError msg), self)
           \<and> msg = ''response_url,error_url must be set before generate_purchase_request can be called''
           \<and> (unset (response_url self) \<longrightarrow> sublist ''response_url'' msg)
           \<and> (unset (error_url self) \<longrightarrow> sublist ''error_url'' msg)"
proof -
  let ?msg = "''response_url,error_url must be set before generate_purchase_request can be called''"
  have call: "generate_purchase_request self = (Inl (AttributeError ?msg), self)"
    using assms
    by (auto simp add: generate_purchase_request_def check_if_set_def all_set_urls
        simp del: all_set.simps)
  have r: "sublist ''response_url'' ?msg"
    using sublist_appendI [of "''response_url''" "[]"
        "'',error_url must be set before generate_purchase_request can be called''"]
    by simp
  have e: "sublist ''error_url'' ?msg"
    using sublist_appendI [of "''error_url''" "''response_url,''"
        "'' must be set before generate_purchase_request can be called''"]
    by simp
  from call r e show ?thesis by blast
qed

theorem generate_purchase_request_unset_urls_witness:
  "\<exists>msg. generate_purchase_request (example_gateway\<lparr>error_url := None\<rparr>)
            = (Inl (AttributeError msg), example_gateway\<lparr>error_url := None\<rparr>)
         \<and> sublist ''error_url'' msg"
proof -
  have h: "unset (response_url (example_gateway\<lparr>error_url := None\<rparr>))
           \<or> unset (error_url (example_gateway\<lparr>error_url := None\<rparr>))"
    by (simp add: unset_def)
  show ?thesis
    using generate_purchase_request_unset_urls [OF h] by (auto simp add: unset_def)
qed

text \<open>
  C2. The claim is that with both URLs set \<open>generate_purchase_request\<close> returns the
  redirect URL. It raises instead: \<open>get_redirect_url\<close> hands \<^verbatim>\<open>action.value\<close>, an integer, to
  \<open>build_payload\<close>, which asks it for \<^verbatim>\<open>.value\<close> again.
\<close>

theorem generate_purchase_request_set_urls_raises:
  assumes "\<not> unset (response_url self)" and "\<not> unset (error_url self)"
  shows "generate_purchase_request self
           = (Inl (AttributeError ''int object has no attribute value''), self)"
  using assms
  by (simp add: generate_purchase_request_def check_if_set_def all_set_urls
      get_redirect_url_def build_payload_def del: all_set.simps)

theorem generate_purchase_request_set_urls_raises_witness:
  "generate_purchase_request example_gateway
     = (Inl (AttributeError ''int object has no attribute value''), example_gateway)"
proof -
  have r: "\<not> unset (response_url example_gateway)"
    by (simp add: unset_def example_gateway_def u_simps)
  have e: "\<not> unset (error_url example_gateway)"
    by (simp add: unset_def example_gateway_def u_simps)
  show ?thesis
    by (rule generate_purchase_request_set_urls_raises [OF r e])
qed

text \<open>
  Past that slip the URL would still be lost: whatever the wrapped method returns, the
  wrapper of \<open>check_if_set\<close> returns \<^verbatim>\<open>None\<close>.
\<close>

lemma check_if_set_returns_None:
  "check_if_set props f_name f self = Inr r \<Longrightarrow> r = PNone"
  by (auto simp add: check_if_set_def split: sum.splits if_splits)

subsection \<open>Constructing the gateway\<close>

text \<open>
  C4. The claim is that the tracking id is the supplied argument when there is one, and
  the timestamp otherwise. \<^verbatim>\<open>__init__\<close> assigns the attribute only in the second case:
  when an id is supplied the instance has no \<open>tracking_id\<close>, and building the purchase
  parameters raises \<^verbatim>\<open>AttributeError\<close>.
\<close>

theorem Gateway_init_drops_supplied_tracking_id:
  assumes "Gateway_init E keystore resource alias amt lng cur (Some t) = Inr g"
  shows "tracking_id g = None
         \<and> build_param_dict g (Code 1)
             = Inl (AttributeError ''Gateway object has no attribute tracking_id'')"
  using assms
  by (auto simp add: Gateway_init_def build_param_dict_def getattr_def Let_def
      split: sum.splits option.splits)

lemma Gateway_init_example:
  "\<exists>g. Gateway_init (example_env example_terminal) (u ''keystore.bin'') (u ''resource.cgn'')
         (u ''shop'') (PObj True (u ''10.5'')) (u ''en'') (u ''KWD'') tracking = Inr g"
  by (simp add: Gateway_init_def example_env_fields example_env_resource)
     (simp add: example_terminal_def u_simps)

theorem Gateway_init_drops_supplied_tracking_id_witness:
  "\<exists>g. Gateway_init (example_env example_terminal) (u ''keystore.bin'') (u ''resource.cgn'')
         (u ''shop'') (PObj True (u ''10.5'')) (u ''en'') (u ''KWD'') (Some (u ''order-1'')) = Inr g
       \<and> tracking_id g = None
       \<and> build_param_dict g (Code 1)
           = Inl (AttributeError ''Gateway object has no attribute tracking_id'')"
proof -
  obtain g where g: "Gateway_init (example_env example_terminal) (u ''keystore.bin'')
      (u ''resource.cgn'') (u ''shop'') (PObj True (u ''10.5'')) (u ''en'') (u ''KWD'')
      (Some (u ''order-1'')) = Inr g"
    using Gateway_init_example by blast
  from Gateway_init_drops_supplied_tracking_id [OF g] g show ?thesis by blast
qed

text \<open>
  The half of the claim that holds: without a supplied id the attribute is the
  timestamp as a decimal string, and it is the \<open>trackid\<close> of the purchase parameters.
\<close>

lemma Gateway_init_default_tracking_id:
  assumes "Gateway_init E keystore resource alias amt lng cur None = Inr g"
  shows "tracking_id g = Some (str_int (time_now E))
         \<and> (\<exists>ps. build_param_dict g (Code 1) = Inr ps
                \<and> map_of ps (u ''trackid'') = Some (PStr (str_int (time_now E))))"
  using assms
  by (auto simp add: Gateway_init_def build_param_dict_def getattr_def Let_def u_simps
      split: sum.splits option.splits)

text \<open>
  C8. When the terminal configuration has been decrypted and parsed, and one of the four
  required tags is missing among the children of its root, the construction raises the
  \<^verbatim>\<open>KeyError\<close> of a missing required tag (the error the specification calls
  \<open>MalformedConfig\<close>): no instance is returned.
\<close>

theorem Gateway_init_missing_required_key:
  assumes "currency_number E cur = Inr num"
      and "read_resource_file E resource keystore alias = Inr conf"
      and "xml_children E conf = Inr root"
      and "k \<in> set required_keys" and "k \<notin> set (map fst root)"
  shows "\<exists>k'. k' \<in> set required_keys \<and> k' \<notin> set (map fst root)
           \<and> Gateway_init E keystore resource alias amt lng cur tracking = Inl (KeyError k')"
proof -
  let ?T = "map_of (rev root)"
  let ?init = "Gateway_init E keystore resource alias amt lng cur tracking"
  have none: "?T x = None \<longleftrightarrow> x \<notin> set (map fst root)" for x
    by (simp add: map_of_eq_None_iff)
  have req: "x \<in> set required_keys" if "x = u ''password'' \<or> x = u ''resourceKey''
      \<or> x = u ''id'' \<or> x = u ''webaddress''" for x
    using that by (auto simp add: required_keys_def)
  have raise: "?init = Inl (KeyError x)
      \<Longrightarrow> ?T x = None \<Longrightarrow> x \<in> set required_keys \<Longrightarrow> ?thesis" for x
    using none by blast
  show ?thesis
  proof (cases "?T (u ''password'')")
    case None
    then have "?init = Inl (KeyError (u ''password''))"
      using assms(1-3) by (simp add: Gateway_init_def)
    then show ?thesis using None req raise by blast
  next
    case pw: (Some pw)
    show ?thesis
    proof (cases "?T (u ''resourceKey'')")
      case None
      then have "?init = Inl (KeyError (u ''resourceKey''))"
        using assms(1-3) pw by (simp add: Gateway_init_def)
      then show ?thesis using None req raise by blast
    next
      case rk: (Some rk)
      show ?thesis
      proof (cases "?T (u ''id'')")
        case None
        then have "?init = Inl (KeyError (u ''id''))"
          using assms(1-3) pw rk by (simp add: Gateway_init_def)
        then show ?thesis using None req raise by blast
      next
        case pid: (Some pid)
        show ?thesis
        proof (cases "?T (u ''webaddress'')")
          case None
          then have "?init = Inl (KeyError (u ''webaddress''))"
            using assms(1-3) pw rk pid by (simp add: Gateway_init_def)
          then show ?thesis using None req raise by blast
        next
          case (Some wa)
          from assms(4) have "k = u ''password'' \<or> k = u ''resourceKey''
              \<or> k = u ''id'' \<or> k = u ''webaddress''"
            by (simp add: required_keys_def)
          then have "?T k \<noteq> None"
            using pw rk pid Some by auto
          with assms(5) none have False by simp
          then show ?thesis ..
        qed
      qed
    qed
  qed
qed

theorem Gateway_init_missing_required_key_witness:
  "\<exists>k'. k' \<in> set required_keys
       \<and> Gateway_init (example_env [(u ''id'', Some (u ''T001''))]) (u ''keystore.bin'')
           (u ''resource.cgn'') (u ''shop'') (PInt 10) (u ''en'') (u ''KWD'') None
           = Inl (KeyError k')"
proof -
  have k: "u ''password'' \<in> set required_keys"
    by (simp add: required_keys_def)
  have m: "u ''password'' \<notin> set (map fst [(u ''id'', Some (u ''T001''))])"
    by (simp add: u_simps)
  from Gateway_init_missing_required_key [OF example_env_fields(1) example_env_resource
      example_env_fields(2) k m]
  show ?thesis by blast
qed

subsection \<open>Validating a gateway URL\<close>

lemmas url_eval = validate_gw_url_def urlparse_def urlsplit_def split_scheme_def splitnetloc_def
  netloc_delim_def checknetloc_def is_ascii_alpha_def is_scheme_char_def ascii_lower_def
  uses_params_def splitparams_def example_lib_def Let_def u_simps

text \<open>
  C9, as amended. Whatever \<open>urlparse\<close> raises, \<open>validate_gw_url\<close> raises. On a parsed
  URL it raises \<open>InvalidUrl\<close> when the scheme is neither \<^verbatim>\<open>http\<close> nor \<^verbatim>\<open>https\<close>, raises
  \<open>InvalidUrl\<close> when the query string is not empty, and returns the string it was given
  otherwise.
\<close>

theorem validate_gw_url_cases:
  "case urlparse lib s of
     Inl e \<Rightarrow> validate_gw_url lib s = Inl e
   | Inr p \<Rightarrow>
       if scheme p \<noteq> u ''http'' \<and> scheme p \<noteq> u ''https''
       then validate_gw_url lib s = Inl (InvalidUrl ''Scheme should be http or https'')
       else if query p \<noteq> []
       then validate_gw_url lib s = Inl (InvalidUrl ''URL cannot have a query string'')
       else validate_gw_url lib s = Inr s"
  by (simp add: validate_gw_url_def split: sum.splits)

theorem validate_gw_url_cases_witness:
  "validate_gw_url example_lib (u ''https://example.com/response'')
     = Inr (u ''https://example.com/response'')
   \<and> validate_gw_url example_lib (u ''https://example.com/response?x=1'')
       = Inl (InvalidUrl ''URL cannot have a query string'')
   \<and> validate_gw_url example_lib (u ''ftp://example.com/response'')
       = Inl (InvalidUrl ''Scheme should be http or https'')"
proof -
  have a: "urlparse example_lib (u ''https://example.com/response'')
      = Inr \<lparr>scheme = u ''https'', netloc = u ''example.com'', path = u ''/response'',
             params = [], query = [], fragment = []\<rparr>"
    by (simp add: url_eval)
  have b: "urlparse example_lib (u ''https://example.com/response?x=1'')
      = Inr \<lparr>scheme = u ''https'', netloc = u ''example.com'', path = u ''/response'',
             params = [], query = u ''x=1'', fragment = []\<rparr>"
    by (simp add: url_eval)
  have c: "urlparse example_lib (u ''ftp://example.com/response'')
      = Inr \<lparr>scheme = u ''ftp'', netloc = u ''example.com'', path = u ''/response'',
             params = [], query = [], fragment = []\<rparr>"
    by (simp add: url_eval)
  from validate_gw_url_cases [of example_lib "u ''https://example.com/response''"]
  have 1: "validate_gw_url example_lib (u ''https://example.com/response'')
      = Inr (u ''https://example.com/response'')"
    unfolding a by (simp add: u_simps)
  from validate_gw_url_cases [of example_lib "u ''https://example.com/response?x=1''"]
  have 2: "validate_gw_url example_lib (u ''https://example.com/response?x=1'')
      = Inl (InvalidUrl ''URL cannot have a query string'')"
    unfolding b by (simp add: u_simps)
  from validate_gw_url_cases [of example_lib "u ''ftp://example.com/response''"]
  have 3: "validate_gw_url example_lib (u ''ftp://example.com/response'')
      = Inl (InvalidUrl ''Scheme should be http or https'')"
    unfolding c by (simp add: u_simps)
  from 1 2 3 show ?thesis by simp
qed

text \<open>
  The claim as stated leaves no room for another outcome. A URL whose host opens a
  bracket that it does not close is one: \<open>urlparse\<close> raises \<^verbatim>\<open>ValueError\<close>, which is neither
  \<open>InvalidUrl\<close> nor the string returned.
\<close>

theorem validate_gw_url_unparsed:
  "validate_gw_url example_lib (u ''http://['') = Inl (ValueError ''Invalid IPv6 URL'')"
  by (simp add: url_eval)

subsection \<open>The block cipher and its inverse\<close>

text \<open>The rows of the two substitution tables.\<close>

lemma sbox_rows:
  "sbox_table ! 0 = [0x63, 0x7c, 0x77, 0x7b, 0xf2, 0x6b, 0x6f, 0xc5, 0x30, 0x01, 0x67, 0x2b, 0xfe, 0xd7, 0xab, 0x76]"
  "sbox_table ! Suc 0 = [0xca, 0x82, 0xc9, 0x7d, 0xfa, 0x59, 0x47, 0xf0, 0xad, 0xd4, 0xa2, 0xaf, 0x9c, 0xa4, 0x72, 0xc0]"
  "sbox_table ! 2 = [0xb7, 0xfd, 0x93, 0x26, 0x36, 0x3f, 0xf7, 0xcc, 0x34, 0xa5, 0xe5, 0xf1, 0x71, 0xd8, 0x31, 0x15]"
  "sbox_table ! 3 = [0x04, 0xc7, 0x23, 0xc3, 0x18, 0x96, 0x05, 0x9a, 0x07, 0x12, 0x80, 0xe2, 0xeb, 0x27, 0xb2, 0x75]"
  "sbox_table ! 4 = [0x09, 0x83, 0x2c, 0x1a, 0x1b, 0x6e, 0x5a, 0xa0, 0x52, 0x3b, 0xd6, 0xb3, 0x29, 0xe3, 0x2f, 0x84]"
  "sbox_table ! 5 = [0x53, 0xd1, 0x00, 0xed, 0x20, 0xfc, 0xb1, 0x5b, 0x6a, 0xcb, 0xbe, 0x39, 0x4a, 0x4c, 0x58, 0xcf]"
  "sbox_table ! 6 = [0xd0, 0xef, 0xaa, 0xfb, 0x43, 0x4d, 0x33, 0x85, 0x45, 0xf9, 0x02, 0x7f, 0x50, 0x3c, 0x9f, 0xa8]"
  "sbox_table ! 7 = [0x51, 0xa3, 0x40, 0x8f, 0x92, 0x9d, 0x38, 0xf5, 0xbc, 0xb6, 0xda, 0x21, 0x10, 0xff, 0xf3, 0xd2]"
  "sbox_table ! 8 = [0xcd, 0x0c, 0x13, 0xec, 0x5f, 0x97, 0x44, 0x17, 0xc4, 0xa7, 0x7e, 0x3d, 0x64, 0x5d, 0x19, 0x73]"
  "sbox_table ! 9 = [0x60, 0x81, 0x4f, 0xdc, 0x22, 0x2a, 0x90, 0x88, 0x46, 0xee, 0xb8, 0x14, 0xde, 0x5e, 0x0b, 0xdb]"
  "sbox_table ! 10 = [0xe0, 0x32, 0x3a, 0x0a, 0x49, 0x06, 0x24, 0x5c, 0xc2, 0xd3, 0xac, 0x62, 0x91, 0x95, 0xe4, 0x79]"
  "sbox_table ! 11 = [0xe7, 0xc8, 0x37, 0x6d, 0x8d, 0xd5, 0x4e, 0xa9, 0x6c, 0x56, 0xf4, 0xea, 0x65, 0x7a, 0xae, 0x08]"
  "sbox_table ! 12 = [0xba, 0x78, 0x25, 0x2e, 0x1c, 0xa6, 0xb4, 0xc6, 0xe8, 0xdd, 0x74, 0x1f, 0x4b, 0xbd, 0x8b, 0x8a]"
  "sbox_table ! 13 = [0x70, 0x3e, 0xb5, 0x66, 0x48, 0x03, 0xf6, 0x0e, 0x61, 0x35, 0x57, 0xb9, 0x86, 0xc1, 0x1d, 0x9e]"
  "sbox_table ! 14 = [0xe1, 0xf8, 0x98, 0x11, 0x69, 0xd9, 0x8e, 0x94, 0x9b, 0x1e, 0x87, 0xe9, 0xce, 0x55, 0x28, 0xdf]"
  "sbox_table ! 15 = [0x8c, 0xa1, 0x89, 0x0d, 0xbf, 0xe6, 0x42, 0x68, 0x41, 0x99, 0x2d, 0x0f, 0xb0, 0x54, 0xbb, 0x16]"
  by (simp_all add: sbox_table_def)

lemma inv_sbox_rows:
  "inv_sbox_table ! 0 = [0x52, 0x09, 0x6a, 0xd5, 0x30, 0x36, 0xa5, 0x38, 0xbf, 0x40, 0xa3, 0x9e, 0x81, 0xf3, 0xd7, 0xfb]"
  "inv_sbox_table ! Suc 0 = [0x7c, 0xe3, 0x39, 0x82, 0x9b, 0x2f, 0xff, 0x87, 0x34, 0x8e, 0x43, 0x44, 0xc4, 0xde, 0xe9, 0xcb]"
  "inv_sbox_table ! 2 = [0x54, 0x7b, 0x94, 0x32, 0xa6, 0xc2, 0x23, 0x3d, 0xee, 0x4c, 0x95, 0x0b, 0x42, 0xfa, 0xc3, 0x4e]"
  "inv_sbox_table ! 3 = [0x08, 0x2e, 0xa1, 0x66, 0x28, 0xd9, 0x24, 0xb2, 0x76, 0x5b, 0xa2, 0x49, 0x6d, 0x8b, 0xd1, 0x25]"
  "inv_sbox_table ! 4 = [0x72, 0xf8, 0xf6, 0x64, 0x86, 0x68, 0x98, 0x16, 0xd4, 0xa4, 0x5c, 0xcc, 0x5d, 0x65, 0xb6, 0x92]"
  "inv_sbox_table ! 5 = [0x6c, 0x70, 0x48, 0x50, 0xfd, 0xed, 0xb9, 0xda, 0x5e, 0x15, 0x46, 0x57, 0xa7, 0x8d, 0x9d, 0x84]"
  "inv_sbox_table ! 6 = [0x90, 0xd8, 0xab, 0x00, 0x8c, 0xbc, 0xd3, 0x0a, 0xf7, 0xe4, 0x58, 0x05, 0xb8, 0xb3, 0x45, 0x06]"
  "inv_sbox_table ! 7 = [0xd0, 0x2c, 0x1e, 0x8f, 0xca, 0x3f, 0x0f, 0x02, 0xc1, 0xaf, 0xbd, 0x03, 0x01, 0x13, 0x8a, 0x6b]"
  "inv_sbox_table ! 8 = [0x3a, 0x91, 0x11, 0x41, 0x4f, 0x67, 0xdc, 0xea, 0x97, 0xf2, 0xcf, 0xce, 0xf0, 0xb4, 0xe6, 0x73]"
  "inv_sbox_table ! 9 = [0x96, 0xac, 0x74, 0x22, 0xe7, 0xad, 0x35, 0x85, 0xe2, 0xf9, 0x37, 0xe8, 0x1c, 0x75, 0xdf, 0x6e]"
  "inv_sbox_table ! 10 = [0x47, 0xf1, 0x1a, 0x71, 0x1d, 0x29, 0xc5, 0x89, 0x6f, 0xb7, 0x62, 0x0e, 0xaa, 0x18, 0xbe, 0x1b]"
  "inv_sbox_table ! 11 = [0xfc, 0x56, 0x3e, 0x4b, 0xc6, 0xd2, 0x79, 0x20, 0x9a, 0xdb, 0xc0, 0xfe, 0x78, 0xcd, 0x5a, 0xf4]"
  "inv_sbox_table ! 12 = [0x1f, 0xdd, 0xa8, 0x33, 0x88, 0x07, 0xc7, 0x31, 0xb1, 0x12, 0x10, 0x59, 0x27, 0x80, 0xec, 0x5f]"
  "inv_sbox_table ! 13 = [0x60, 0x51, 0x7f, 0xa9, 0x19, 0xb5, 0x4a, 0x0d, 0x2d, 0xe5, 0x7a, 0x9f, 0x93, 0xc9, 0x9c, 0xef]"
  "inv_sbox_table ! 14 = [0xa0, 0xe0, 0x3b, 0x4d, 0xae, 0x2a, 0xf5, 0xb0, 0xc8, 0xeb, 0xbb, 0x3c, 0x83, 0x53, 0x99, 0x61]"
  "inv_sbox_table ! 15 = [0x17, 0x2b, 0x04, 0x7e, 0xba, 0x77, 0xd6, 0x26, 0xe1, 0x69, 0x14, 0x63, 0x55, 0x21, 0x0c, 0x7d]"
  by (simp_all add: inv_sbox_table_def)

lemma sbox_inverse_table:
  "list_all (\<lambda>r. list_all (\<lambda>c. inv_sbox (sbox (of_nat (16 * r + c))) = of_nat (16 * r + c)) nibbles) nibbles"
  by (simp add: nibbles_def sbox_def inv_sbox_def sbox_rows inv_sbox_rows)

lemma nibbles_set: "n < 16 \<Longrightarrow> n \<in> set nibbles"
  unfolding nibbles_def by (simp add: eval_nat_numeral) arith

lemma inv_sbox_sbox: "inv_sbox (sbox b) = b"
proof -
  let ?n = "unat b"
  have lt: "?n < 256" using unsigned_less [of b] by simp
  then have "?n div 16 \<in> set nibbles" "?n mod 16 \<in> set nibbles"
    by (simp_all add: nibbles_set less_mult_imp_div_less)
  with sbox_inverse_table
  have "inv_sbox (sbox (of_nat (16 * (?n div 16) + ?n mod 16))) = (of_nat (16 * (?n div 16) + ?n mod 16) :: 8 word)"
    unfolding list_all_iff by blast
  then show ?thesis by simp
qed

lemma xtime_xor: "xtime (a XOR b) = xtime a XOR xtime b"
  by (simp add: xtime_def bit_xor_iff push_bit_xor ac_simps)

lemma xor_cancel: "(a::8 word) XOR (a XOR b) = b"
  by (simp flip: xor.assoc)

lemma inv_mix_column_mix_column:
  "inv_mix_column (mix_column [a0, a1, a2, a3]) = [a0, a1, a2, a3]"
  by (simp add: mul3_def mul9_def mul11_def mul13_def mul14_def xtime_xor xor_cancel ac_simps)

lemma length16E:
  assumes "length (s :: 'a list) = 16"
  obtains a0 a1 a2 a3 a4 a5 a6 a7 a8 a9 a10 a11 a12 a13 a14 a15
  where "s = [a0, a1, a2, a3, a4, a5, a6, a7, a8, a9, a10, a11, a12, a13, a14, a15]"
proof -
  from assms have "\<exists>a0 a1 a2 a3 a4 a5 a6 a7 a8 a9 a10 a11 a12 a13 a14 a15.
      s = [a0, a1, a2, a3, a4, a5, a6, a7, a8, a9, a10, a11, a12, a13, a14, a15]"
    by (simp add: eval_nat_numeral length_Suc_conv) blast
  then show ?thesis using that by blast
qed

lemma inv_shift_rows_shift_rows: "length s = 16 \<Longrightarrow> inv_shift_rows (shift_rows s) = s"
  by (erule length16E) (simp add: shift_rows_def inv_shift_rows_def)

lemma inv_mix_columns_mix_columns: "length s = 16 \<Longrightarrow> inv_mix_columns (mix_columns s) = s"
proof (erule length16E)
  fix a0 a1 a2 a3 a4 a5 a6 a7 a8 a9 a10 a11 a12 a13 a14 a15 :: "8 word"
  assume s: "s = [a0, a1, a2, a3, a4, a5, a6, a7, a8, a9, a10, a11, a12, a13, a14, a15]"
  have c: "chop 4 s = [[a0, a1, a2, a3], [a4, a5, a6, a7], [a8, a9, a10, a11], [a12, a13, a14, a15]]"
    unfolding s by (simp add: chop.simps)
  have m: "mix_columns s = mix_column [a0, a1, a2, a3] @ mix_column [a4, a5, a6, a7]
      @ mix_column [a8, a9, a10, a11] @ mix_column [a12, a13, a14, a15]"
    unfolding mix_columns_def c by simp
  have l: "\<exists>b0 b1 b2 b3. mix_column [x0, x1, x2, x3] = [b0, b1, b2, b3]" for x0 x1 x2 x3
    by simp
  obtain b0 b1 b2 b3 where 0: "mix_column [a0, a1, a2, a3] = [b0, b1, b2, b3]" using l by blast
  obtain b4 b5 b6 b7 where 1: "mix_column [a4, a5, a6, a7] = [b4, b5, b6, b7]" using l by blast
  obtain b8 b9 b10 b11 where 2: "mix_column [a8, a9, a10, a11] = [b8, b9, b10, b11]" using l by blast
  obtain b12 b13 b14 b15 where 3: "mix_column [a12, a13, a14, a15] = [b12, b13, b14, b15]" using l by blast
  have "inv_mix_columns (mix_columns s) = inv_mix_column [b0, b1, b2, b3] @ inv_mix_column [b4, b5, b6, b7]
      @ inv_mix_column [b8, b9, b10, b11] @ inv_mix_column [b12, b13, b14, b15]"
    unfolding m 0 1 2 3 inv_mix_columns_def by (simp add: chop.simps)
  also have "\<dots> = s"
    unfolding 0 [symmetric] 1 [symmetric] 2 [symmetric] 3 [symmetric] inv_mix_column_mix_column s
    by simp
  finally show ?thesis .
qed

lemma length_mix_columns: "length s = 16 \<Longrightarrow> length (mix_columns s) = 16"
  by (erule length16E) (simp add: mix_columns_def chop.simps)

lemma length_shift_rows: "length (shift_rows s) = 16"
  by (simp add: shift_rows_def)

lemma length_sub_bytes: "length (sub_bytes s) = length s"
  by (simp add: sub_bytes_def)

lemma length_xor_bytes: "length (xor_bytes a b) = min (length a) (length b)"
  by (simp add: xor_bytes_def)

lemma xor_bytes_cancel: "length s = length k \<Longrightarrow> xor_bytes (xor_bytes s k) k = s"
proof (induction s arbitrary: k)
  case Nil
  then show ?case by (simp add: xor_bytes_def)
next
  case (Cons a s)
  then obtain b k' where k: "k = b # k'" "length s = length k'"
    by (cases k) auto
  have "(a XOR b) XOR b = a"
    by (simp add: xor.assoc)
  with Cons.IH [OF k(2)] show ?case
    by (simp add: k(1) xor_bytes_def)
qed

lemma inv_sub_bytes_sub_bytes: "inv_sub_bytes (sub_bytes s) = s"
  by (simp add: inv_sub_bytes_def sub_bytes_def inv_sbox_sbox map_idI)

lemma length_round_fn: "length s = 16 \<Longrightarrow> length k = 16 \<Longrightarrow> length (round_fn k s) = 16"
  by (simp add: round_fn_def length_xor_bytes length_mix_columns length_shift_rows)

lemma inv_round_round_fn:
  assumes "length s = 16" and "length k = 16"
  shows "inv_round k (round_fn k s) = s"
proof -
  let ?m = "mix_columns (shift_rows (sub_bytes s))"
  have "length ?m = length k"
    using assms(2) by (simp add: length_mix_columns length_shift_rows)
  then have "xor_bytes (round_fn k s) k = ?m"
    unfolding round_fn_def by (rule xor_bytes_cancel)
  then show ?thesis
    using assms(1)
    by (simp add: inv_round_def inv_mix_columns_mix_columns length_shift_rows
        length_sub_bytes inv_shift_rows_shift_rows inv_sub_bytes_sub_bytes)
qed

lemma length_final_round: "length k = 16 \<Longrightarrow> length (final_round k s) = 16"
  by (simp add: final_round_def length_xor_bytes length_shift_rows)

lemma inv_final_round_final_round:
  assumes "length s = 16" and "length k = 16"
  shows "inv_final_round k (final_round k s) = s"
proof -
  let ?m = "shift_rows (sub_bytes s)"
  have "length ?m = length k"
    using assms(2) by (simp add: length_shift_rows)
  then have "xor_bytes (final_round k s) k = ?m"
    unfolding final_round_def by (rule xor_bytes_cancel)
  then show ?thesis
    using assms(1)
    by (simp add: inv_final_round_def length_sub_bytes inv_shift_rows_shift_rows
        inv_sub_bytes_sub_bytes)
qed

lemma fold_round_fn:
  assumes "length s = 16" and "\<forall>k \<in> set ks. length k = 16"
  shows "length (fold round_fn ks s) = 16 \<and> foldr inv_round ks (fold round_fn ks s) = s"
  using assms
proof (induction ks arbitrary: s)
  case Nil
  then show ?case by simp
next
  case (Cons k ks)
  have k: "length k = 16" using Cons.prems(2) by simp
  have "length (round_fn k s) = 16"
    using Cons.prems(1) k by (rule length_round_fn)
  moreover have "\<forall>k \<in> set ks. length k = 16" using Cons.prems(2) by simp
  ultimately have "length (fold round_fn ks (round_fn k s)) = 16
      \<and> foldr inv_round ks (fold round_fn ks (round_fn k s)) = round_fn k s"
    by (rule Cons.IH)
  then show ?case
    using inv_round_round_fn [OF Cons.prems(1) k] by simp
qed

lemma length_cipher:
  assumes "length blk = 16" and "\<forall>k \<in> set rks. length k = 16"
  shows "length (cipher rks blk) = 16"
proof (cases rks)
  case Nil
  then show ?thesis using assms(1) by (simp add: cipher_def)
next
  case (Cons k0 ks)
  then show ?thesis
    using assms by (simp add: cipher_def length_xor_bytes length_final_round)
qed

lemma inv_cipher_cipher:
  assumes "length blk = 16" and "\<forall>k \<in> set rks. length k = 16"
  shows "inv_cipher rks (cipher rks blk) = blk"
proof (cases rks)
  case Nil
  then show ?thesis by (simp add: cipher_def inv_cipher_def)
next
  case (Cons k0 ks)
  have k0: "length blk = length k0" using assms Cons by simp
  show ?thesis
  proof (cases "ks = []")
    case True
    then show ?thesis
      using xor_bytes_cancel [OF k0] by (simp add: Cons cipher_def inv_cipher_def)
  next
    case False
    let ?s0 = "xor_bytes blk k0"
    let ?mid = "butlast ks"
    have s0: "length ?s0 = 16" using assms(1) k0 by (simp add: length_xor_bytes)
    have mid: "\<forall>k \<in> set ?mid. length k = 16"
      using assms(2) Cons by (auto dest: in_set_butlastD)
    have last: "length (last ks) = 16"
      using assms(2) Cons False by simp
    note f = fold_round_fn [OF s0 mid]
    have "inv_final_round (last ks) (final_round (last ks) (fold round_fn ?mid ?s0))
        = fold round_fn ?mid ?s0"
      using f last by (simp add: inv_final_round_final_round)
    then have "inv_cipher rks (cipher rks blk) = xor_bytes ?s0 k0"
      using False f by (simp add: Cons cipher_def inv_cipher_def)
    then show ?thesis using xor_bytes_cancel [OF k0] by simp
  qed
qed

subsection \<open>Blocks, key expansion and CBC\<close>

lemma concat_chop: "0 < n \<Longrightarrow> concat (chop n xs) = xs"
proof (induction n xs rule: chop.induct)
  case (1 n xs)
  show ?case
  proof (cases "xs = []")
    case True
    then show ?thesis by (simp add: chop.simps)
  next
    case False
    with 1 show ?thesis by (subst chop.simps) simp
  qed
qed

lemma length_chop_blocks:
  "0 < n \<Longrightarrow> n dvd length xs \<Longrightarrow> b \<in> set (chop n xs) \<Longrightarrow> length b = n"
proof (induction n xs rule: chop.induct)
  case (1 n xs)
  show ?case
  proof (cases "xs = []")
    case True
    with "1.prems" show ?thesis by (simp add: chop.simps)
  next
    case False
    from "1.prems"(2) obtain m where m: "length xs = n * m" by (auto elim: dvdE)
    with False "1.prems"(1) have "0 < m" by (cases m) auto
    then have le: "n \<le> length xs" using m by (cases m) auto
    have d: "n dvd length (drop n xs)"
      using "1.prems"(2) le by (simp add: dvd_diff_nat)
    from "1.prems"(3) False "1.prems"(1)
    have "b = take n xs \<or> b \<in> set (chop n (drop n xs))"
      by (subst (asm) chop.simps) auto
    then show ?thesis
    proof
      assume "b = take n xs"
      then show ?thesis using le by simp
    next
      assume "b \<in> set (chop n (drop n xs))"
      with "1.IH" False "1.prems"(1) d show ?thesis by simp
    qed
  qed
qed

lemma length_chop: "0 < n \<Longrightarrow> n dvd length xs \<Longrightarrow> length (chop n xs) = length xs div n"
proof (induction n xs rule: chop.induct)
  case (1 n xs)
  show ?case
  proof (cases "xs = []")
    case True
    then show ?thesis by (simp add: chop.simps)
  next
    case False
    from "1.prems"(2) obtain m where m: "length xs = n * m" by (auto elim: dvdE)
    with False "1.prems"(1) have "0 < m" by (cases m) auto
    then have le: "n \<le> length xs" using m by (cases m) auto
    have d: "n dvd length (drop n xs)"
      using "1.prems"(2) le by (simp add: dvd_diff_nat)
    have "length (chop n xs) = Suc (length (chop n (drop n xs)))"
      using False "1.prems"(1) by (subst chop.simps) simp
    also have "\<dots> = Suc ((length xs - n) div n)"
      using "1.IH" False "1.prems"(1) d by simp
    also have "\<dots> = length xs div n"
      using le "1.prems"(1) by (simp add: le_div_geq)
    finally show ?thesis .
  qed
qed

lemma chop_concat:
  "0 < n \<Longrightarrow> \<forall>b \<in> set bs. length b = n \<Longrightarrow> chop n (concat bs) = bs"
proof (induction bs)
  case Nil
  then show ?case by (simp add: chop.simps)
next
  case (Cons b bs)
  then have "b \<noteq> []" by auto
  with Cons show ?case by (subst chop.simps) simp
qed

lemma length_next_word:
  assumes "0 < nk" and "nk \<le> length ws" and "\<forall>w \<in> set ws. length w = 4"
  shows "length (next_word nk ws) = 4"
proof -
  from assms have ne: "ws \<noteq> []" by auto
  then have l: "length (last ws) = 4" using assms(3) by simp
  have "length ws - nk < length ws" using assms(1,2) by arith
  then have "ws ! (length ws - nk) \<in> set ws" by (rule nth_mem)
  then have n: "length (ws ! (length ws - nk)) = 4" using assms(3) by blast
  show ?thesis
    using l n by (simp add: next_word_def Let_def length_xor_bytes rcon_def)
qed

lemma expand_words:
  assumes "0 < nk" and "nk \<le> length ws" and "\<forall>w \<in> set ws. length w = 4"
  shows "length (((\<lambda>ws. ws @ [next_word nk ws]) ^^ m) ws) = length ws + m
         \<and> (\<forall>w \<in> set (((\<lambda>ws. ws @ [next_word nk ws]) ^^ m) ws). length w = 4)"
proof (induction m)
  case 0
  then show ?case using assms(3) by simp
next
  case (Suc m)
  let ?ws = "((\<lambda>ws. ws @ [next_word nk ws]) ^^ m) ws"
  from Suc have "nk \<le> length ?ws" using assms(2) by simp
  with Suc assms(1) have "length (next_word nk ?ws) = 4"
    by (simp add: length_next_word)
  with Suc show ?case by simp
qed

lemma length_concat_words:
  assumes "\<forall>w \<in> set ws. length w = 4"
  shows "length (concat ws) = 4 * length ws"
  using assms by (induction ws) auto

lemma key_expansion_lengths:
  assumes "length kb = 16 \<or> length kb = 24 \<or> length kb = 32"
      and "k \<in> set (key_expansion kb)"
  shows "length k = 16"
proof -
  define nk where "nk = length kb div 4"
  define ws where "ws = ((\<lambda>ws. ws @ [next_word nk ws]) ^^ (3 * nk + 28)) (chop 4 kb)"
  have ke: "key_expansion kb = map concat (chop 4 ws)"
    unfolding key_expansion_def Let_def ws_def nk_def ..
  have d: "4 dvd length kb" using assms(1) by auto
  have nk: "0 < nk" using assms(1) unfolding nk_def by auto
  have l0: "nk \<le> length (chop 4 kb)"
    using d by (simp add: length_chop nk_def)
  have w0: "\<forall>w \<in> set (chop 4 kb). length w = 4"
    using d by (simp add: length_chop_blocks)
  have l1: "length (chop 4 kb) = nk"
    using d by (simp add: length_chop nk_def)
  have e: "length ws = length (chop 4 kb) + (3 * nk + 28) \<and> (\<forall>w \<in> set ws. length w = 4)"
    unfolding ws_def by (rule expand_words [OF nk l0 w0])
  then have "length ws = 4 * (nk + 7)" using l1 by simp
  then have d4: "4 dvd length ws" by simp
  from assms(2) obtain g where g: "g \<in> set (chop 4 ws)" "k = concat g"
    unfolding ke by auto
  have lg: "length g = 4" using g(1) d4 by (simp add: length_chop_blocks)
  have "set g \<subseteq> set (concat (chop 4 ws))" using g(1) by auto
  then have "set g \<subseteq> set ws" by (simp add: concat_chop)
  then have "\<forall>w \<in> set g. length w = 4" using e by blast
  then have "length (concat g) = 4 * length g" by (rule length_concat_words)
  then show ?thesis using lg g(2) by simp
qed

lemma cbc_blocks_round_trip:
  assumes "\<forall>k \<in> set rks. length k = 16"
      and "length iv = 16" and "\<forall>b \<in> set bs. length b = 16"
  shows "(\<forall>c \<in> set (cbc_encrypt_blocks rks iv bs). length c = 16)
         \<and> cbc_decrypt_blocks rks iv (cbc_encrypt_blocks rks iv bs) = bs"
  using assms(2,3)
proof (induction bs arbitrary: iv)
  case Nil
  then show ?case by simp
next
  case (Cons b bs)
  let ?x = "xor_bytes b iv"
  let ?c = "cipher rks ?x"
  have b: "length b = length iv" using Cons.prems by simp
  have x: "length ?x = 16" using Cons.prems by (simp add: length_xor_bytes)
  have c: "length ?c = 16" using x assms(1) by (rule length_cipher)
  have "inv_cipher rks ?c = ?x" using x assms(1) by (rule inv_cipher_cipher)
  then have "xor_bytes (inv_cipher rks ?c) iv = b"
    using xor_bytes_cancel [OF b] by simp
  moreover have "(\<forall>c \<in> set (cbc_encrypt_blocks rks ?c bs). length c = 16)
      \<and> cbc_decrypt_blocks rks ?c (cbc_encrypt_blocks rks ?c bs) = bs"
    using Cons.prems by (intro Cons.IH [OF c]) simp
  ultimately show ?case using c by (simp add: Let_def)
qed

subsection \<open>Padding and hexadecimal text\<close>

lemma unat_of_nat_byte: "n < 256 \<Longrightarrow> unat (of_nat n :: 8 word) = n"
  by (simp add: unsigned_of_nat take_bit_nat_eq_self)

lemma length_pad: "length (pad d 16) mod 16 = 0" "0 < length (pad d 16)" "16 dvd length (pad d 16)"
proof -
  have l: "length (pad d 16) = length d + (16 - length d mod 16)"
    by (simp add: pad_def Let_def)
  show "length (pad d 16) mod 16 = 0" unfolding l by presburger
  show "0 < length (pad d 16)" unfolding l by simp
  show "16 dvd length (pad d 16)" unfolding l by presburger
qed

lemma unpad_pad: "unpad (pad d 16) 16 = Inr d"
proof -
  define n where "n = 16 - length d mod 16"
  have n: "0 < n" "n \<le> 16" by (simp_all add: n_def)
  have p: "pad d 16 = d @ replicate n (of_nat n)"
    by (simp add: pad_def Let_def n_def)
  have u: "unat (of_nat n :: 8 word) = n"
    using n by (intro unat_of_nat_byte) simp
  have last: "last (pad d 16) = of_nat n"
    using n unfolding p by simp
  have len: "length (pad d 16) = length d + n" unfolding p by simp
  have m: "length (pad d 16) mod 16 = 0" by (rule length_pad)
  have dr: "drop (length (pad d 16) - n) (pad d 16) = replicate n (of_nat n)"
    unfolding len unfolding p by simp
  have tk: "take (length (pad d 16) - n) (pad d 16) = d"
    unfolding len unfolding p by simp
  have c: "\<not> (n < 1 \<or> min 16 (length (pad d 16)) < n)"
    using n unfolding len by simp
  show ?thesis
    unfolding unpad_def Let_def last u dr tk
    using m c length_pad(2) [of d] by simp
qed

lemma hexdigit_bounds: "n < 16 \<Longrightarrow> hexdigit n < 128 \<and> hexval (hexdigit n) = Some n"
  by (auto simp add: hexdigit_def hexval_def)

lemma unat_hexdigit: "n < 16 \<Longrightarrow> unat (of_nat (hexdigit n) :: 8 word) = hexdigit n"
  using hexdigit_bounds [of n] by (simp add: unat_of_nat_byte)

lemma hex_pairs_hexlify: "hex_pairs (map unat (hexlify bs)) = Inr bs"
proof (induction bs)
  case Nil
  then show ?case by (simp add: hexlify_def)
next
  case (Cons b bs)
  let ?n = "unat b"
  have lt: "?n < 256" using unsigned_less [of b] by simp
  then have hi: "?n div 16 < 16" and lo: "?n mod 16 < 16" by simp_all
  have h: "hexlify (b # bs) = of_nat (hexdigit (?n div 16)) # of_nat (hexdigit (?n mod 16)) # hexlify bs"
    by (simp add: hexlify_def)
  have b: "(of_nat (16 * (?n div 16) + ?n mod 16) :: 8 word) = b" by simp
  show ?case
    unfolding h using Cons.IH hexdigit_bounds [OF hi] hexdigit_bounds [OF lo] b
    by (simp add: unat_hexdigit [OF hi] unat_hexdigit [OF lo] del: of_nat_add of_nat_mult)
qed

lemma length_hexlify: "length (hexlify bs) = 2 * length bs"
  by (induction bs) (simp_all add: hexlify_def)

lemma unhexlify_hexlify: "unhexlify (Bytes (hexlify bs)) = Inr bs"
  by (simp add: a2b_hex_def length_hexlify hex_pairs_hexlify)

lemma hexlify_ascii: "list_all (\<lambda>c. c < 128) (map unat (hexlify bs))"
proof (induction bs)
  case Nil
  then show ?case by (simp add: hexlify_def)
next
  case (Cons b bs)
  let ?n = "unat b"
  have lt: "?n < 256" using unsigned_less [of b] by simp
  then have hi: "?n div 16 < 16" and lo: "?n mod 16 < 16" by simp_all
  have h: "hexlify (b # bs) = of_nat (hexdigit (?n div 16)) # of_nat (hexdigit (?n mod 16)) # hexlify bs"
    by (simp add: hexlify_def)
  show ?case
    unfolding h using Cons.IH hexdigit_bounds [OF hi] hexdigit_bounds [OF lo]
    by (simp add: unat_hexdigit [OF hi] unat_hexdigit [OF lo])
qed

lemma unhexlify_Str_hexlify: "unhexlify (Str (map unat (hexlify bs))) = Inr bs"
  using hexlify_ascii [of bs] by (simp add: a2b_hex_def length_hexlify hex_pairs_hexlify)

subsection \<open>UTF-8\<close>

lemma add_mod_cancel:
  fixes k n x :: nat
  assumes "x < n"
  shows "(k * n + x) mod n = x"
  using assms by simp

lemma digits3:
  fixes c :: nat
  defines "p \<equiv> c div 4096" and "q \<equiv> (c div 64) mod 64" and "r \<equiv> c mod 64"
  shows "c = p * 4096 + q * 64 + r" and "q < 64" and "r < 64"
proof -
  have 1: "c = (c div 64) * 64 + r" by (simp add: r_def)
  have 2: "c div 64 = (c div 64 div 64) * 64 + q" by (simp add: q_def)
  have 3: "c div 64 div 64 = p" by (simp add: p_def div_mult2_eq [symmetric])
  show "c = p * 4096 + q * 64 + r"
    using 1 2 unfolding 3 by simp
  show "q < 64" "r < 64" by (simp_all add: q_def r_def)
qed

lemma digits4:
  fixes c :: nat
  defines "t \<equiv> c div 262144" and "p \<equiv> (c div 4096) mod 64"
    and "q \<equiv> (c div 64) mod 64" and "r \<equiv> c mod 64"
  shows "c = t * 262144 + p * 4096 + q * 64 + r" and "p < 64" and "q < 64" and "r < 64"
proof -
  have 1: "c = (c div 4096) * 4096 + q * 64 + r"
    unfolding q_def r_def by (rule digits3(1))
  have 2: "c div 4096 = (c div 4096 div 64) * 64 + p" by (simp add: p_def)
  have 3: "c div 4096 div 64 = t" by (simp add: t_def div_mult2_eq [symmetric])
  show "c = t * 262144 + p * 4096 + q * 64 + r"
    using 1 2 unfolding 3 by simp
  show "p < 64" "q < 64" "r < 64" by (simp_all add: p_def q_def r_def)
qed

lemma scan_two:
  "194 \<le> b0 \<Longrightarrow> b0 < 224 \<Longrightarrow> is_cont b1 \<Longrightarrow>
   utf8_scan (b0 # b1 # rest) = Some ((b0 mod 32) * 64 + b1 mod 64) # utf8_scan rest"
  by simp

lemma scan_three:
  "224 \<le> b0 \<Longrightarrow> b0 < 240 \<Longrightarrow> second_ok3 b0 b1 \<Longrightarrow> is_cont b2 \<Longrightarrow>
   utf8_scan (b0 # b1 # b2 # rest)
     = Some ((b0 mod 16) * 4096 + (b1 mod 64) * 64 + b2 mod 64) # utf8_scan rest"
  by simp

lemma scan_four:
  "240 \<le> b0 \<Longrightarrow> b0 < 245 \<Longrightarrow> second_ok4 b0 b1 \<Longrightarrow> is_cont b2 \<Longrightarrow> is_cont b3 \<Longrightarrow>
   utf8_scan (b0 # b1 # b2 # b3 # rest)
     = Some ((b0 mod 8) * 262144 + (b1 mod 64) * 4096 + (b2 mod 64) * 64 + b3 mod 64)
       # utf8_scan rest"
  by simp

lemma scan1: "c < 128 \<Longrightarrow> utf8_scan (utf8_encode_cp c @ rest) = Some c # utf8_scan rest"
  by (simp add: utf8_encode_cp_def)

lemma scan2:
  assumes "128 \<le> c" and "c < 2048"
  shows "utf8_scan (utf8_encode_cp c @ rest) = Some c # utf8_scan rest"
proof -
  define q where "q = c div 64"
  define r where "r = c mod 64"
  have c: "q * 64 + r = c" by (simp add: q_def r_def)
  have r: "r < 64" by (simp add: r_def)
  have q: "2 \<le> q" "q < 32" using assms c r by linarith+
  have e: "utf8_encode_cp c = [192 + q, 128 + r]"
    using assms by (simp add: utf8_encode_cp_def q_def r_def)
  have m: "(192 + q) mod 32 = q" "(128 + r) mod 64 = r"
    using add_mod_cancel [of q 32 6] add_mod_cancel [of r 64 2] q r by simp_all
  have "utf8_scan ((192 + q) # (128 + r) # rest)
      = Some (((192 + q) mod 32) * 64 + (128 + r) mod 64) # utf8_scan rest"
    using q r by (intro scan_two) (simp_all add: is_cont_def)
  then show ?thesis
    unfolding e m c by simp
qed

lemma scan3:
  assumes "2048 \<le> c" and "c < 65536" and "c < 55296 \<or> 57344 \<le> c"
  shows "utf8_scan (utf8_encode_cp c @ rest) = Some c # utf8_scan rest"
proof -
  define p where "p = c div 4096"
  define q where "q = (c div 64) mod 64"
  define r where "r = c mod 64"
  have c: "p * 4096 + q * 64 + r = c" and q: "q < 64" and r: "r < 64"
    using digits3 [of c] by (simp_all add: p_def q_def r_def)
  have p: "p < 16" using assms(2) c by linarith
  have lo: "p = 0 \<longrightarrow> 32 \<le> q" using assms(1) c r by auto
  have hi: "p = 13 \<longrightarrow> q < 32" using assms(3) c q r by auto
  have e: "utf8_encode_cp c = [224 + p, 128 + q, 128 + r]"
    using assms by (simp add: utf8_encode_cp_def p_def q_def r_def)
  have m: "(224 + p) mod 16 = p" "(128 + q) mod 64 = q" "(128 + r) mod 64 = r"
    using add_mod_cancel [of p 16 14] add_mod_cancel [of q 64 2] add_mod_cancel [of r 64 2] p q r
    by simp_all
  have ok: "second_ok3 (224 + p) (128 + q)"
    using q lo hi by (auto simp add: second_ok3_def is_cont_def)
  have "utf8_scan ((224 + p) # (128 + q) # (128 + r) # rest)
      = Some (((224 + p) mod 16) * 4096 + ((128 + q) mod 64) * 64 + (128 + r) mod 64)
        # utf8_scan rest"
    using p r ok by (intro scan_three) (simp_all add: is_cont_def)
  then show ?thesis
    unfolding e m c by simp
qed

lemma scan4:
  assumes "65536 \<le> c" and "c < 1114112"
  shows "utf8_scan (utf8_encode_cp c @ rest) = Some c # utf8_scan rest"
proof -
  define t where "t = c div 262144"
  define p where "p = (c div 4096) mod 64"
  define q where "q = (c div 64) mod 64"
  define r where "r = c mod 64"
  have c: "t * 262144 + p * 4096 + q * 64 + r = c" and p: "p < 64" and q: "q < 64" and r: "r < 64"
    using digits4 [of c] by (simp_all add: t_def p_def q_def r_def)
  have t: "t < 5" using assms(2) c by linarith
  have lo: "t = 0 \<longrightarrow> 16 \<le> p" using assms(1) c q r by auto
  have hi: "t = 4 \<longrightarrow> p < 16" using assms(2) c by auto
  have e: "utf8_encode_cp c = [240 + t, 128 + p, 128 + q, 128 + r]"
    using assms by (simp add: utf8_encode_cp_def t_def p_def q_def r_def)
  have m: "(240 + t) mod 8 = t" "(128 + p) mod 64 = p" "(128 + q) mod 64 = q"
      "(128 + r) mod 64 = r"
    using add_mod_cancel [of t 8 30] add_mod_cancel [of p 64 2] add_mod_cancel [of q 64 2]
      add_mod_cancel [of r 64 2] t p q r
    by simp_all
  have ok: "second_ok4 (240 + t) (128 + p)"
    using p lo hi by (auto simp add: second_ok4_def is_cont_def)
  have "utf8_scan ((240 + t) # (128 + p) # (128 + q) # (128 + r) # rest)
      = Some (((240 + t) mod 8) * 262144 + ((128 + p) mod 64) * 4096 + ((128 + q) mod 64) * 64
              + (128 + r) mod 64) # utf8_scan rest"
    using t q r ok by (intro scan_four) (simp_all add: is_cont_def)
  then show ?thesis
    unfolding e m c by simp
qed

lemma utf8_scan_encode_cp:
  "encodable c \<Longrightarrow> utf8_scan (utf8_encode_cp c @ rest) = Some c # utf8_scan rest"
  using scan1 [of c rest] scan2 [of c rest] scan3 [of c rest] scan4 [of c rest]
  unfolding encodable_def by linarith

lemma utf8_encode_cp_bytes:
  assumes "encodable c" and "b \<in> set (utf8_encode_cp c)"
  shows "b < 256"
proof -
  have 1: "c div 64 < 32" if "c < 2048" using that by simp
  have 2: "c div 4096 < 16" if "c < 65536" using that by simp
  have 3: "c div 262144 < 16" if "c < 1114112" using that by simp
  have m: "x mod 64 < 64" for x :: nat by simp
  show ?thesis
    using assms 1 2 3 m [of c] m [of "c div 64"] m [of "c div 4096"]
    unfolding encodable_def utf8_encode_cp_def
    by (auto split: if_splits)
qed

lemma utf8_scan_encode:
  "list_all encodable s \<Longrightarrow> utf8_scan (concat (map utf8_encode_cp s)) = map Some s"
  by (induction s) (simp_all add: utf8_scan_encode_cp)

lemma length_concat_blocks:
  "\<forall>c \<in> set cs. length c = n \<Longrightarrow> length (concat cs) = n * length cs"
  by (induction cs) auto

lemma unat_utf8_bytes:
  assumes "list_all encodable s"
  shows "map unat (map of_nat (concat (map utf8_encode_cp s)) :: bytes) = concat (map utf8_encode_cp s)"
proof -
  let ?xs = "concat (map utf8_encode_cp s)"
  have "b < 256" if "b \<in> set ?xs" for b
    using that assms utf8_encode_cp_bytes by (auto simp add: list_all_iff)
  then have "unat (of_nat b :: 8 word) = b" if "b \<in> set ?xs" for b
    using that by (simp add: unat_of_nat_byte)
  then have "map (\<lambda>b. unat (of_nat b :: 8 word)) ?xs = ?xs"
    by (intro map_idI)
  then show ?thesis by (simp add: comp_def)
qed

lemma utf8_decode_encode:
  assumes "utf8_encode s = Inr bs"
  shows "utf8_decode bs = Inr s"
proof -
  from assms have e: "list_all encodable s" and bs: "bs = map of_nat (concat (map utf8_encode_cp s))"
    by (auto simp add: utf8_encode_def split: if_splits)
  have "utf8_scan (map unat bs) = map Some s"
    unfolding bs unat_utf8_bytes [OF e] using e by (rule utf8_scan_encode)
  then show ?thesis
    by (simp add: utf8_decode_def comp_def)
qed

lemma utf8_encode_encodable: "list_all encodable s \<Longrightarrow> \<exists>bs. utf8_encode s = Inr bs"
  by (simp add: utf8_encode_def)

subsection \<open>Encrypting and decrypting a payload\<close>

lemma cbc_round_trip:
  assumes "AES_new_cbc kb iv = Inr crypt" and "16 dvd length data"
  shows "\<exists>ct. cbc_encrypt crypt data = Inr ct \<and> cbc_decrypt crypt ct = Inr data"
proof -
  from assms(1) have len: "length kb = 16 \<or> length kb = 24 \<or> length kb = 32"
    and iv: "length iv = 16"
    and crypt: "crypt = \<lparr>round_keys = key_expansion kb, cbc_iv = iv\<rparr>"
    by (auto simp add: AES_new_cbc_def split: if_splits)
  let ?rks = "key_expansion kb"
  let ?bs = "chop 16 data"
  let ?cs = "cbc_encrypt_blocks ?rks iv ?bs"
  have rks: "\<forall>k \<in> set ?rks. length k = 16"
    using key_expansion_lengths [OF len] by blast
  have bs: "\<forall>b \<in> set ?bs. length b = 16"
    using assms(2) by (simp add: length_chop_blocks)
  note rt = cbc_blocks_round_trip [OF rks iv bs]
  have enc: "cbc_encrypt crypt data = Inr (concat ?cs)"
    using assms(2) by (simp add: cbc_encrypt_def crypt)
  have "length (concat ?cs) = 16 * length ?cs"
    using rt by (intro length_concat_blocks) simp
  moreover have "chop 16 (concat ?cs) = ?cs"
    using rt by (simp add: chop_concat)
  ultimately have "cbc_decrypt crypt (concat ?cs) = Inr (concat ?bs)"
    using rt by (simp add: cbc_decrypt_def crypt)
  then show ?thesis
    using enc by (simp add: concat_chop)
qed

lemma payload_round_trip:
  assumes "list_all encodable p" and "utf8_encode k = Inr kb" and "length kb = 16"
  shows "\<exists>c. encrypt_payload p k = Inr c \<and> decrypt_payload (Bytes c) k = Inr p
             \<and> decrypt_payload (Str (map unat c)) k = Inr p"
proof -
  obtain data where data: "utf8_encode p = Inr data"
    using utf8_encode_encodable [OF assms(1)] by blast
  obtain crypt where crypt: "AES_new_cbc kb kb = Inr crypt"
    using assms(3) by (simp add: AES_new_cbc_def)
  obtain ct where ct: "cbc_encrypt crypt (pad data 16) = Inr ct"
      "cbc_decrypt crypt ct = Inr (pad data 16)"
    using cbc_round_trip [OF crypt length_pad(3)] by blast
  have enc: "encrypt_payload p k = Inr (hexlify ct)"
    by (simp add: encrypt_payload_def assms(2) crypt data ct(1) PADDING_OFFSET_def)
  have dec: "decrypt_payload (Bytes (hexlify ct)) k = Inr p"
    by (simp add: decrypt_payload_def assms(2) crypt ct(2) PADDING_OFFSET_def unpad_pad
        utf8_decode_encode [OF data] unhexlify_hexlify del: unhexlify.simps)
  have dec': "decrypt_payload (Str (map unat (hexlify ct))) k = Inr p"
    by (simp add: decrypt_payload_def assms(2) crypt ct(2) PADDING_OFFSET_def unpad_pad
        utf8_decode_encode [OF data] unhexlify_Str_hexlify del: unhexlify.simps)
  from enc dec dec' show ?thesis by simp
qed

text \<open>
  C1, as amended. For every plaintext of Unicode scalar values and every key whose UTF-8
  encoding has 16 bytes, \<open>encrypt_payload\<close> returns a ciphertext and \<open>decrypt_payload\<close>
  returns the plaintext from it.
\<close>

theorem payload_round_trip_16:
  assumes "list_all encodable p" and "utf8_encode k = Inr kb" and "length kb = 16"
  shows "\<exists>c. encrypt_payload p k = Inr c \<and> decrypt_payload (Bytes c) k = Inr p"
  using payload_round_trip [OF assms] by blast

subsection \<open>The sample key and two sample payloads\<close>

text \<open>
  The key schedule of the sample key and the encryption of the payloads
  \<^verbatim>\<open>trandata=zz\<close> and \<^verbatim>\<open>foo=2&foo=3\<close> under it, computed step by step.
\<close>

lemma funpow_numeral_unfold: "(f ^^ numeral n) x = (f ^^ pred_numeral n) (f x)"
  by (simp add: numeral_eq_Suc funpow_swap1)

lemmas aes_eval = sbox_def sbox_rows xtime_def mul3_def 
  bit_iff_odd_drop_bit mix_columns_def chop.simps
  shift_rows_def sub_bytes_def xor_bytes_def
  round_fn_def final_round_def

lemma example_key_expansion:
  "key_expansion [48, 49, 50, 51, 52, 53, 54, 55, 56, 57, 97, 98, 99, 100, 101, 102] = example_round_keys"
  by (simp add: key_expansion_def next_word_def rcon_def Let_def funpow_numeral_unfold
      sbox_def sbox_rows xtime_def bit_iff_odd_drop_bit xor_bytes_def chop.simps example_round_keys_def)

lemma example_cipher_1:
  "cipher example_round_keys [68, 67, 83, 93, 80, 84, 66, 86, 5, 67, 27, 103, 102, 97, 96, 99]
     = [79, 61, 242, 149, 231, 151, 35, 13, 199, 116, 166, 250, 106, 216, 32, 185]"
  by (simp add: cipher_def example_round_keys_def aes_eval)

lemma example_cipher_2:
  "cipher example_round_keys [86, 94, 93, 14, 6, 19, 80, 88, 87, 4, 82, 103, 102, 97, 96, 99]
     = [71, 85, 63, 255, 144, 43, 233, 95, 93, 31, 37, 134, 48, 130, 255, 196]"
  by (simp add: cipher_def example_round_keys_def aes_eval)

lemma example_key_bytes:
  "utf8_encode (u ''0123456789abcdef'')
     = Inr [48, 49, 50, 51, 52, 53, 54, 55, 56, 57, 97, 98, 99, 100, 101, 102]"
  by (simp add: utf8_encode_def encodable_def utf8_encode_cp_def u_simps)

lemma replicate_5: "replicate 5 x = [x, x, x, x, x]"
  by (simp add: eval_nat_numeral)

lemma example_encrypt_1:
  "encrypt_payload (u ''trandata=zz'') (u ''0123456789abcdef'')
     = Inr [52, 102, 51, 100, 102, 50, 57, 53, 101, 55, 57, 55, 50, 51, 48, 100, 99, 55, 55,
            52, 97, 54, 102, 97, 54, 97, 100, 56, 50, 48, 98, 57]"
proof -
  have p: "utf8_encode (u ''trandata=zz'')
      = Inr [116, 114, 97, 110, 100, 97, 116, 97, 61, 122, 122]"
    by (simp add: utf8_encode_def encodable_def utf8_encode_cp_def u_simps)
  have d: "pad [116, 114, 97, 110, 100, 97, 116, 97, 61, 122, 122] 16
      = [116, 114, 97, 110, 100, 97, 116, 97, 61, 122, 122, 5, 5, 5, 5, 5]"
    by (simp add: pad_def replicate_5)
  show ?thesis
    unfolding encrypt_payload_def example_key_bytes p PADDING_OFFSET_def
    by (simp add: AES_new_cbc_def example_key_expansion d
        cbc_encrypt_def chop.simps xor_bytes_def example_cipher_1 hexlify_def hexdigit_def)
qed

lemma example_decrypt_1:
  "decrypt_payload (Str (u ''4f3df295e797230dc774a6fa6ad820b9'')) (u ''0123456789abcdef'')
     = Inr (u ''trandata=zz'')"
proof -
  have e: "list_all encodable (u ''trandata=zz'')"
    by (simp add: encodable_def u_simps)
  from payload_round_trip [OF e example_key_bytes]
  have "decrypt_payload (Str (map unat [52, 102, 51, 100, 102, 50, 57, 53, 101, 55, 57, 55, 50, 51,
      48, 100, 99, 55, 55, 52, 97, 54, 102, 97, 54, 97, 100, 56, 50, 48, 98, 57 :: 8 word]))
      (u ''0123456789abcdef'') = Inr (u ''trandata=zz'')"
    unfolding example_encrypt_1 by simp
  then show ?thesis by (simp add: u_simps)
qed

lemma example_encrypt_2:
  "encrypt_payload (u ''foo=2&foo=3'') (u ''0123456789abcdef'')
     = Inr [52, 55, 53, 53, 51, 102, 102, 102, 57, 48, 50, 98, 101, 57, 53, 102, 53, 100, 49,
            102, 50, 53, 56, 54, 51, 48, 56, 50, 102, 102, 99, 52]"
proof -
  have p: "utf8_encode (u ''foo=2&foo=3'')
      = Inr [102, 111, 111, 61, 50, 38, 102, 111, 111, 61, 51]"
    by (simp add: utf8_encode_def encodable_def utf8_encode_cp_def u_simps)
  have d: "pad [102, 111, 111, 61, 50, 38, 102, 111, 111, 61, 51] 16
      = [102, 111, 111, 61, 50, 38, 102, 111, 111, 61, 51, 5, 5, 5, 5, 5]"
    by (simp add: pad_def replicate_5)
  show ?thesis
    unfolding encrypt_payload_def example_key_bytes p PADDING_OFFSET_def
    by (simp add: AES_new_cbc_def example_key_expansion d
        cbc_encrypt_def chop.simps xor_bytes_def example_cipher_2 hexlify_def hexdigit_def)
qed

lemma example_decrypt_2:
  "decrypt_payload (Str (u ''47553fff902be95f5d1f25863082ffc4'')) (u ''0123456789abcdef'')
     = Inr (u ''foo=2&foo=3'')"
proof -
  have e: "list_all encodable (u ''foo=2&foo=3'')"
    by (simp add: encodable_def u_simps)
  from payload_round_trip [OF e example_key_bytes]
  have "decrypt_payload (Str (map unat [52, 55, 53, 53, 51, 102, 102, 102, 57, 48, 50, 98, 101,
      57, 53, 102, 53, 100, 49, 102, 50, 53, 56, 54, 51, 48, 56, 50, 102, 102, 99, 52 :: 8 word]))
      (u ''0123456789abcdef'') = Inr (u ''foo=2&foo=3'')"
    unfolding example_encrypt_2 by simp
  then show ?thesis by (simp add: u_simps)
qed

theorem payload_round_trip_16_witness:
  "\<exists>c. encrypt_payload (u ''amt=10.5&trackid=42'') (u ''0123456789abcdef'') = Inr c
       \<and> decrypt_payload (Bytes c) (u ''0123456789abcdef'') = Inr (u ''amt=10.5&trackid=42'')"
proof -
  have e: "list_all encodable (u ''amt=10.5&trackid=42'')"
    by (simp add: encodable_def u_simps)
  have l: "length [48, 49, 50, 51, 52, 53, 54, 55, 56, 57, 97, 98, 99, 100, 101, 102 :: 8 word] = 16"
    by simp
  show ?thesis
    by (rule payload_round_trip_16 [OF e example_key_bytes l])
qed

text \<open>
  The claim as stated takes in the keys of 24 and 32 bytes. The key is also the
  initialisation vector, which must have the 16 bytes of a block: with such a key
  \<^verbatim>\<open>AES.new\<close> raises \<^verbatim>\<open>ValueError\<close> and nothing is encrypted.
\<close>

theorem encrypt_payload_key_24:
  "utf8_encode (u ''0123456789abcdef01234567'')
     = Inr [48, 49, 50, 51, 52, 53, 54, 55, 56, 57, 97, 98, 99, 100, 101, 102,
            48, 49, 50, 51, 52, 53, 54, 55]
   \<and> encrypt_payload (u ''foo=2'') (u ''0123456789abcdef01234567'')
       = Inl (ValueError ''Incorrect IV length (it must be 16 bytes long)'')"
  by (simp add: encrypt_payload_def AES_new_cbc_def utf8_encode_def encodable_def
      utf8_encode_cp_def u_simps)

lemma encrypt_payload_long_key:
  assumes "utf8_encode k = Inr kb" and "length kb = 24 \<or> length kb = 32"
  shows "encrypt_payload p k = Inl (ValueError ''Incorrect IV length (it must be 16 bytes long)'')"
  using assms by (auto simp add: encrypt_payload_def AES_new_cbc_def)

text \<open>
  Decryption decodes the hexadecimal text before it builds the cipher: with such a key it
  raises the same \<^verbatim>\<open>ValueError\<close> on a text that \<^verbatim>\<open>unhexlify\<close> accepts, and the error of
  \<^verbatim>\<open>unhexlify\<close> on any other.
\<close>

lemma decrypt_payload_long_key:
  assumes "utf8_encode k = Inr kb" and "length kb = 24 \<or> length kb = 32"
      and "unhexlify t = Inr raw"
  shows "decrypt_payload t k = Inl (ValueError ''Incorrect IV length (it must be 16 bytes long)'')"
  using assms by (auto simp add: decrypt_payload_def AES_new_cbc_def)

lemma decrypt_payload_not_hex:
  assumes "utf8_encode k = Inr kb" and "unhexlify t = Inl e"
  shows "decrypt_payload t k = Inl e"
  using assms by (simp add: decrypt_payload_def)

text \<open>A string with a lone surrogate has no UTF-8 encoding: it cannot be a plaintext.\<close>

lemma encrypt_payload_lone_surrogate:
  "encrypt_payload [55296] (u ''0123456789abcdef'') = Inl UnicodeEncodeError"
  by (simp add: encrypt_payload_def example_key_bytes AES_new_cbc_def)
     (simp add: utf8_encode_def encodable_def)

subsection \<open>Parsing the callback\<close>

lemma map_of_dict_append:
  "map_of (dict_append d k v) k'
     = (if k' = k then Some ((case map_of d k of None \<Rightarrow> [] | Some vs \<Rightarrow> vs) @ [v])
        else map_of d k')"
  by (induction d k v rule: dict_append.induct) auto

lemma map_of_foldl_dict_append:
  "map_of (foldl (\<lambda>d (name, v). dict_append d name v) d ps) k
     = (let occ = map snd (filter (\<lambda>p. fst p = k) ps)
        in case map_of d k of
             None \<Rightarrow> if occ = [] then None else Some occ
           | Some vs \<Rightarrow> Some (vs @ occ))"
proof (induction ps arbitrary: d)
  case Nil
  then show ?case by (simp split: option.splits)
next
  case (Cons p ps)
  obtain n v where p: "p = (n, v)" by (cases p)
  show ?case
    unfolding p by (simp add: Cons.IH map_of_dict_append Let_def split: option.splits)
qed

lemma map_of_parse_qs:
  "map_of (parse_qs qs) k
     = (if occurrences k qs = [] then None else Some (occurrences k qs))"
  by (simp add: parse_qs_def occurrences_def map_of_foldl_dict_append Let_def)

lemma parse_qs_values:
  assumes "(k, vs) \<in> set (parse_qs qs)"
  shows "vs \<noteq> []"
proof -
  have d: "set (dict_append d k' v) \<subseteq> {(a, b). b \<noteq> []}" if "set d \<subseteq> {(a, b). b \<noteq> []}"
    for d :: "(ustr \<times> ustr list) list" and k' v
    using that by (induction d k' v rule: dict_append.induct) auto
  have f: "set (foldl (\<lambda>d (name, v). dict_append d name v) d ps) \<subseteq> {(a, b). b \<noteq> []}"
    if "set d \<subseteq> {(a, b). b \<noteq> []}" for d :: "(ustr \<times> ustr list) list" and ps
    using that
  proof (induction ps arbitrary: d)
    case Nil
    then show ?case by simp
  next
    case (Cons p ps)
    obtain n v where p: "p = (n, v)" by (cases p)
    show ?case unfolding p using Cons.IH [OF d [OF Cons.prems]] by simp
  qed
  have "set (parse_qs qs) \<subseteq> {(a, b). b \<noteq> []}"
    unfolding parse_qs_def by (rule f) simp
  with assms show ?thesis by blast
qed

lemma first_values_nonempty:
  assumes "\<forall>(k, vs) \<in> set c. vs \<noteq> []"
  shows "first_values c = Inr (map (\<lambda>(k, vs). (k, hd vs)) c)"
  using assms
proof (induction c)
  case Nil
  then show ?case by simp
next
  case (Cons kv c)
  obtain k vs where kv: "kv = (k, vs)" by (cases kv)
  with Cons.prems obtain x xs where vs: "vs = x # xs" by (cases vs) auto
  from Cons show ?case by (simp add: kv vs first_def)
qed

lemma map_of_first_values:
  "map_of (map (\<lambda>(k, vs). (k, hd vs)) c) k = map_option hd (map_of c k)"
  by (induction c) auto

lemma map_of_filter_key:
  "map_of (filter (\<lambda>(k', v). k' \<noteq> t) c) k = (if k = t then None else map_of c k)"
  by (induction c) auto

lemma merge_decrypted_nonempty:
  assumes "\<forall>(k, vs) \<in> set dec. vs \<noteq> []"
  shows "\<exists>d'. merge_decrypted d dec = Inr d'
           \<and> (\<forall>k. map_of d' k
                 = (case map_of d k of Some v \<Rightarrow> Some v | None \<Rightarrow> map_option hd (map_of dec k)))"
  using assms
proof (induction dec arbitrary: d)
  case Nil
  then show ?case by (simp split: option.splits)
next
  case (Cons kv dec)
  obtain k vs where kv: "kv = (k, vs)" by (cases kv)
  with Cons.prems obtain x xs where vs: "vs = x # xs" by (cases vs) auto
  have rest: "\<forall>(k, vs) \<in> set dec. vs \<noteq> []" using Cons.prems by simp
  show ?case
  proof (cases "k \<in> set (map fst d)")
    case True
    then have some: "map_of d k \<noteq> None" by (simp add: map_of_eq_None_iff)
    from Cons.IH [OF rest, of d] obtain d' where d': "merge_decrypted d dec = Inr d'"
      "\<forall>k. map_of d' k
         = (case map_of d k of Some v \<Rightarrow> Some v | None \<Rightarrow> map_option hd (map_of dec k))"
      by blast
    show ?thesis
      using True some d' by (auto simp add: kv split: option.splits)
  next
    case False
    then have none: "map_of d k = None" by (simp add: map_of_eq_None_iff)
    from Cons.IH [OF rest, of "d @ [(k, x)]"] obtain d' where d':
      "merge_decrypted (d @ [(k, x)]) dec = Inr d'"
      "\<forall>k'. map_of d' k'
         = (case map_of (d @ [(k, x)]) k' of Some v \<Rightarrow> Some v
            | None \<Rightarrow> map_option hd (map_of dec k'))"
      by blast
    show ?thesis
      using False none d'
      by (auto simp add: kv vs first_def map_add_def split: option.splits)
  qed
qed

lemma get_result_char:
  assumes "map_of (parse_qs raw) (u ''trandata'') = Some (p # ps)"
      and "key self = Some kk"
      and "decrypt_payload (Str p) kk = Inr plain"
  shows "\<exists>d. get_result self raw = Inr d
           \<and> (\<forall>k. map_of d k
                 = (if k \<noteq> u ''trandata'' \<and> occurrences k raw \<noteq> []
                    then Some (hd (occurrences k raw))
                    else if occurrences k plain \<noteq> [] then Some (hd (occurrences k plain))
                    else None))"
proof -
  let ?common = "filter (\<lambda>(k', v). k' \<noteq> u ''trandata'') (parse_qs raw)"
  let ?d = "map (\<lambda>(k, vs). (k, hd vs)) ?common"
  have pr: "parse_response self raw = Inr (?common, parse_qs plain)"
    using assms by (simp add: parse_response_def first_def)
  have c: "\<forall>(k, vs) \<in> set ?common. vs \<noteq> []"
    using parse_qs_values [of _ _ raw] by auto
  have fv: "first_values ?common = Inr ?d"
    using c by (rule first_values_nonempty)
  have dv: "\<forall>(k, vs) \<in> set (parse_qs plain). vs \<noteq> []"
    using parse_qs_values [of _ _ plain] by auto
  from merge_decrypted_nonempty [OF dv, of ?d] obtain d' where d':
    "merge_decrypted ?d (parse_qs plain) = Inr d'"
    "\<forall>k. map_of d' k
       = (case map_of ?d k of Some v \<Rightarrow> Some v | None \<Rightarrow> map_option hd (map_of (parse_qs plain) k))"
    by blast
  have gr: "get_result self raw = Inr d'"
    by (simp add: get_result_def pr fv d'(1))
  have "map_of d' k
      = (if k \<noteq> u ''trandata'' \<and> occurrences k raw \<noteq> []
         then Some (hd (occurrences k raw))
         else if occurrences k plain \<noteq> [] then Some (hd (occurrences k plain))
         else None)" for k
    unfolding d'(2) [rule_format] map_of_first_values map_of_filter_key map_of_parse_qs
    by simp
  with gr show ?thesis by blast
qed

lemma get_result_Inr:
  assumes "get_result self raw = Inr d"
  obtains p ps kk plain where "map_of (parse_qs raw) (u ''trandata'') = Some (p # ps)"
    and "key self = Some kk" and "decrypt_payload (Str p) kk = Inr plain"
proof -
  from assms obtain c dd where pr: "parse_response self raw = Inr (c, dd)"
    by (auto simp add: get_result_def split: sum.splits)
  then show ?thesis
    using that
    by (auto simp add: parse_response_def Let_def first_def
        split: option.splits sum.splits list.splits)
qed

lemmas parse_eval = parse_qs_def parse_qsl_def parse_field_def py_partition_def
  unquote_plus_def unquote_def py_replace_def u_simps

lemma example_key: "key example_gateway = Some (u ''0123456789abcdef'')"
  by (simp add: example_gateway_def)

text \<open>
  C7. When the callback has no \<^verbatim>\<open>trandata\<close> field (the dictionary of \<open>parse_qs\<close> has no
  such key), \<open>get_result\<close> raises \<open>InvalidGatewayResponse\<close>.
\<close>

theorem get_result_missing_trandata:
  assumes "u ''trandata'' \<notin> set (map fst (parse_qs raw))"
  shows "get_result self raw
           = Inl (InvalidGatewayResponse ''Invalid response from the gateway, missing encrypted data'')"
proof -
  from assms have "map_of (parse_qs raw) (u ''trandata'') = None"
    by (simp add: map_of_eq_None_iff)
  then show ?thesis
    by (simp add: get_result_def parse_response_def)
qed

theorem get_result_missing_trandata_witness:
  "get_result example_gateway (u ''foo=1&bar=2'')
     = Inl (InvalidGatewayResponse ''Invalid response from the gateway, missing encrypted data'')"
proof -
  have "u ''trandata'' \<notin> set (map fst (parse_qs (u ''foo=1&bar=2'')))"
    by (simp add: parse_eval)
  then show ?thesis by (rule get_result_missing_trandata)
qed

text \<open>
  C6. Let the callback carry \<^verbatim>\<open>trandata\<close>, and let its first value decrypt to the payload
  \<open>plain\<close>. The cleartext fields are the fields of the callback that remain when
  \<^verbatim>\<open>trandata\<close> has been taken out. For every key that a cleartext field and the payload both
  bind, \<open>get_result\<close> returns a dictionary that binds the key to the (first) cleartext value.
\<close>

theorem get_result_cleartext_precedence:
  assumes "map_of (parse_qs raw) (u ''trandata'') = Some (p # ps)"
      and "key self = Some kk"
      and "decrypt_payload (Str p) kk = Inr plain"
      and "k \<noteq> u ''trandata''"
      and "map_of (parse_qs raw) k = Some (v # vs)"
      and "map_of (parse_qs plain) k = Some (w # ws)"
  shows "\<exists>d. get_result self raw = Inr d \<and> map_of d k = Some v"
proof -
  from assms(5) have "occurrences k raw = v # vs"
    by (simp add: map_of_parse_qs split: if_splits)
  with get_result_char [OF assms(1-3)] assms(4) show ?thesis
    by auto
qed

lemma example_callback_2:
  "parse_qs (u ''trandata=47553fff902be95f5d1f25863082ffc4&foo=1'')
     = [(u ''trandata'', [u ''47553fff902be95f5d1f25863082ffc4'']), (u ''foo'', [u ''1''])]"
  by (simp add: parse_eval)

lemma example_payload_2:
  "parse_qs (u ''foo=2&foo=3'') = [(u ''foo'', [u ''2'', u ''3''])]"
  by (simp add: parse_eval)

lemma example_keys_differ: "u ''foo'' \<noteq> u ''trandata''" "u ''trandata'' \<noteq> u ''foo''"
  by (simp_all add: u_simps)

theorem get_result_cleartext_precedence_witness:
  "\<exists>d. get_result example_gateway (u ''trandata=47553fff902be95f5d1f25863082ffc4&foo=1'') = Inr d
       \<and> map_of d (u ''foo'') = Some (u ''1'')"
proof -
  have 1: "map_of (parse_qs (u ''trandata=47553fff902be95f5d1f25863082ffc4&foo=1'')) (u ''trandata'')
      = Some (u ''47553fff902be95f5d1f25863082ffc4'' # [])"
    unfolding example_callback_2 by simp
  have 5: "map_of (parse_qs (u ''trandata=47553fff902be95f5d1f25863082ffc4&foo=1'')) (u ''foo'')
      = Some (u ''1'' # [])"
    unfolding example_callback_2 by (simp add: example_keys_differ)
  have 6: "map_of (parse_qs (u ''foo=2&foo=3'')) (u ''foo'') = Some (u ''2'' # [u ''3''])"
    unfolding example_payload_2 by simp
  show ?thesis
    by (rule get_result_cleartext_precedence [OF 1 example_key example_decrypt_2
          example_keys_differ(1) 5 6])
qed

lemma example_callback_1:
  "parse_qs (u ''trandata=4f3df295e797230dc774a6fa6ad820b9&foo=1'')
     = [(u ''trandata'', [u ''4f3df295e797230dc774a6fa6ad820b9'']), (u ''foo'', [u ''1''])]"
  by (simp add: parse_eval)

lemma example_payload_1:
  "parse_qs (u ''trandata=zz'') = [(u ''trandata'', [u ''zz''])]"
  by (simp add: parse_eval)

text \<open>
  The field \<^verbatim>\<open>trandata\<close> is not a cleartext field: it is taken out of the callback before
  the merge, so a payload field of that name is bound to its decrypted value.
\<close>

lemma get_result_payload_trandata:
  "map_of (parse_qs (u ''trandata=4f3df295e797230dc774a6fa6ad820b9&foo=1'')) (u ''trandata'')
     = Some [u ''4f3df295e797230dc774a6fa6ad820b9'']
   \<and> decrypt_payload (Str (u ''4f3df295e797230dc774a6fa6ad820b9'')) (u ''0123456789abcdef'')
       = Inr (u ''trandata=zz'')
   \<and> map_of (parse_qs (u ''trandata=zz'')) (u ''trandata'') = Some [u ''zz'']
   \<and> get_result example_gateway (u ''trandata=4f3df295e797230dc774a6fa6ad820b9&foo=1'')
       = Inr [(u ''foo'', u ''1''), (u ''trandata'', u ''zz'')]"
proof -
  have "get_result example_gateway (u ''trandata=4f3df295e797230dc774a6fa6ad820b9&foo=1'')
      = Inr [(u ''foo'', u ''1''), (u ''trandata'', u ''zz'')]"
    unfolding get_result_def parse_response_def example_callback_1
    by (simp add: first_def example_key example_decrypt_1 example_payload_1 example_keys_differ)
  then show ?thesis
    unfolding example_callback_1 example_payload_1
    by (simp add: example_decrypt_1)
qed

text \<open>
  C10, as amended. Let the callback carry \<^verbatim>\<open>trandata\<close>, and let its first value decrypt to
  the payload \<open>plain\<close>. Then \<open>get_result\<close> returns a dictionary; a field other than
  \<^verbatim>\<open>trandata\<close> that occurs among the cleartext fields is bound to the first of its cleartext
  values; a field that does not (or is \<^verbatim>\<open>trandata\<close>) and occurs in the payload is bound to
  the first of its values there; a field that occurs in neither way is not bound. The later
  values of a field are in no binding.
\<close>

theorem get_result_first_values:
  assumes "map_of (parse_qs raw) (u ''trandata'') = Some (p # ps)"
      and "key self = Some kk"
      and "decrypt_payload (Str p) kk = Inr plain"
  shows "\<exists>d. get_result self raw = Inr d
           \<and> (k \<noteq> u ''trandata'' \<and> occurrences k raw = v # vs \<longrightarrow> map_of d k = Some v)
           \<and> ((k = u ''trandata'' \<or> occurrences k raw = []) \<and> occurrences k plain = w # ws
                \<longrightarrow> map_of d k = Some w)
           \<and> ((k = u ''trandata'' \<or> occurrences k raw = []) \<and> occurrences k plain = []
                \<longrightarrow> map_of d k = None)"
  using get_result_char [OF assms] by auto

lemma example_callback_3:
  "parse_qs (u ''trandata=47553fff902be95f5d1f25863082ffc4&x=1'')
     = [(u ''trandata'', [u ''47553fff902be95f5d1f25863082ffc4'']), (u ''x'', [u ''1''])]"
  by (simp add: parse_eval)

theorem get_result_first_values_witness:
  "\<exists>d. get_result example_gateway (u ''trandata=47553fff902be95f5d1f25863082ffc4&x=1'') = Inr d
       \<and> map_of d (u ''foo'') = Some (u ''2'')"
proof -
  have 1: "map_of (parse_qs (u ''trandata=47553fff902be95f5d1f25863082ffc4&x=1'')) (u ''trandata'')
      = Some (u ''47553fff902be95f5d1f25863082ffc4'' # [])"
    unfolding example_callback_3 by simp
  have r: "occurrences (u ''foo'') (u ''trandata=47553fff902be95f5d1f25863082ffc4&x=1'') = []"
    by (simp add: occurrences_def parse_eval)
  have p: "occurrences (u ''foo'') (u ''foo=2&foo=3'') = u ''2'' # [u ''3'']"
    by (simp add: occurrences_def parse_eval)
  from get_result_first_values [OF 1 example_key example_decrypt_2,
      of "u ''foo''" "[]" "[]" "u ''2''" "[u ''3'']"] r p
  show ?thesis by auto
qed

text \<open>
  The claim as stated takes in \<^verbatim>\<open>trandata\<close> among the cleartext fields: here it occurs
  twice, and the result does not bind it at all (its first value is the payload that was
  decrypted). The field \<^verbatim>\<open>foo\<close>, twice in the payload, is bound to the cleartext value.
\<close>

theorem get_result_repeated_trandata:
  "occurrences (u ''trandata'') (u ''trandata=47553fff902be95f5d1f25863082ffc4&trandata=00&foo=1'')
     = [u ''47553fff902be95f5d1f25863082ffc4'', u ''00'']
   \<and> decrypt_payload (Str (u ''47553fff902be95f5d1f25863082ffc4'')) (u ''0123456789abcdef'')
       = Inr (u ''foo=2&foo=3'')
   \<and> occurrences (u ''foo'') (u ''foo=2&foo=3'') = [u ''2'', u ''3'']
   \<and> get_result example_gateway
         (u ''trandata=47553fff902be95f5d1f25863082ffc4&trandata=00&foo=1'')
       = Inr [(u ''foo'', u ''1'')]"
proof -
  have c: "parse_qs (u ''trandata=47553fff902be95f5d1f25863082ffc4&trandata=00&foo=1'')
      = [(u ''trandata'', [u ''47553fff902be95f5d1f25863082ffc4'', u ''00'']), (u ''foo'', [u ''1''])]"
    by (simp add: parse_eval)
  have g: "get_result example_gateway
      (u ''trandata=47553fff902be95f5d1f25863082ffc4&trandata=00&foo=1'') = Inr [(u ''foo'', u ''1'')]"
    unfolding get_result_def parse_response_def c
    by (simp add: first_def example_key example_decrypt_2 example_payload_2 example_keys_differ)
  have o: "occurrences (u ''trandata'')
      (u ''trandata=47553fff902be95f5d1f25863082ffc4&trandata=00&foo=1'')
      = [u ''47553fff902be95f5d1f25863082ffc4'', u ''00'']"
    by (simp add: occurrences_def parse_eval)
  have p: "occurrences (u ''foo'') (u ''foo=2&foo=3'') = [u ''2'', u ''3'']"
    by (simp add: occurrences_def parse_eval)
  from o p g example_decrypt_2 show ?thesis by simp
qed

end
